theory Spec2Isabelle
  imports Complex_Main "HOL-Library.Product_Lexorder" "HOL-Library.Sublist"
begin

section \<open>Python text primitives used by the narration pipeline\<close>

text \<open>
  Python strings are modelled as \<^typ>\<open>string\<close>; a character stands for a code point below 256.
  \<open>str.strip\<close>, the regular expression class \<open>\s\<close> and \<open>int\<close> all use the same notion of
  white space, which below 256 consists of the code points 9-13, 28-32, 133 and 160.
\<close>

definition py_isspace :: "char \<Rightarrow> bool" where
  "py_isspace c = ((of_char c :: nat) \<in> {9, 10, 11, 12, 13, 28, 29, 30, 31, 32, 133, 160})"

definition py_strip :: "string \<Rightarrow> string" where
  "py_strip s = rev (dropWhile py_isspace (rev (dropWhile py_isspace s)))"

text \<open>\<open>s.split(sep)\<close> for a one-character separator: always at least one field.\<close>

fun py_split :: "char \<Rightarrow> string \<Rightarrow> string list" where
  "py_split sep [] = [[]]"
| "py_split sep (c # cs) =
     (if c = sep then [] # py_split sep cs
      else (case py_split sep cs of
              [] \<Rightarrow> [[c]]
            | f # fs \<Rightarrow> (c # f) # fs))"

text \<open>\<open>a, b = part.split('-', 1)\<close> for a part that contains the separator.\<close>

definition py_split_first :: "char \<Rightarrow> string \<Rightarrow> string \<times> string" where
  "py_split_first sep s = (takeWhile (\<lambda>c. c \<noteq> sep) s, drop 1 (dropWhile (\<lambda>c. c \<noteq> sep) s))"

definition is_digit :: "char \<Rightarrow> bool" where
  "is_digit c = (48 \<le> (of_char c :: nat) \<and> (of_char c :: nat) \<le> 57)"

definition digit_val :: "char \<Rightarrow> nat" where
  "digit_val c = (of_char c :: nat) - 48"

text \<open>
  The digits of a decimal literal as \<open>int\<close> accepts them: one digit, then digits, each
  optionally preceded by a single underscore.
\<close>

fun py_digits_from :: "nat \<Rightarrow> string \<Rightarrow> nat option" where
  "py_digits_from n [] = Some n"
| "py_digits_from n [c] = (if is_digit c then Some (10 * n + digit_val c) else None)"
| "py_digits_from n (c # d # ds) =
     (if is_digit c then py_digits_from (10 * n + digit_val c) (d # ds)
      else if c = CHR ''_'' \<and> is_digit d then py_digits_from (10 * n + digit_val d) ds
      else None)"

definition py_digits :: "string \<Rightarrow> nat option" where
  "py_digits s =
     (case s of
        [] \<Rightarrow> None
      | c # cs \<Rightarrow> if is_digit c then py_digits_from (digit_val c) cs else None)"

text \<open>
  \<open>int(s)\<close> on a string: surrounding white space is dropped, one sign is allowed, and
  \<open>None\<close> stands for the \<open>ValueError\<close> that every caller here catches. The interpreter's
  configurable ceiling on the number of digits is not part of the model.
\<close>

definition py_int :: "string \<Rightarrow> int option" where
  "py_int s =
     (case py_strip s of
        [] \<Rightarrow> None
      | c # cs \<Rightarrow>
          if c = CHR ''-'' then map_option (\<lambda>n. - int n) (py_digits cs)
          else if c = CHR ''+'' then map_option int (py_digits cs)
          else map_option int (py_digits (c # cs)))"


section \<open>Slide selection: \<open>select_slides\<close>\<close>

text \<open>The parts the loop runs over: \<open>[p.strip() for p in spec.split(',') if p.strip()]\<close>.\<close>

definition spec_parts :: "string \<Rightarrow> string list" where
  "spec_parts spec = map py_strip (filter (\<lambda>p. py_strip p \<noteq> []) (py_split (CHR '','') spec))"

text \<open>\<open>int(a) if a else dflt\<close> inside \<open>try\<close>, with \<open>except Exception: dflt\<close>.\<close>

definition bound_or :: "int \<Rightarrow> string \<Rightarrow> int" where
  "bound_or dflt a = (if a = [] then dflt else (case py_int a of Some v \<Rightarrow> v | None \<Rightarrow> dflt))"

text \<open>What one part adds to the set \<open>s\<close> in the body of the loop.\<close>

definition part_indices :: "int \<Rightarrow> string \<Rightarrow> int list" where
  "part_indices tot part =
     (if CHR ''-'' \<in> set part then
        (let (a, b) = py_split_first (CHR ''-'') part;
             st = max 1 (bound_or 1 a);
             en = min tot (bound_or tot b)
         in if st \<le> en then [st..en] else [])
      else
        (case py_int part of
           Some n \<Rightarrow> if 1 \<le> n \<and> n \<le> tot then [n] else []
         | None \<Rightarrow> []))"

definition select_slides :: "int \<Rightarrow> string \<Rightarrow> int list" where
  "select_slides tot spec =
     (if py_strip spec = [] then [1..tot]
      else sort (remdups (concat (map (part_indices tot) (spec_parts spec)))))"

section \<open>Speech synthesis with retries\<close>

definition NET_MAX_ATTEMPTS :: nat where
  "NET_MAX_ATTEMPTS = 3"

definition NET_BACKOFF_BASE :: rat where
  "NET_BACKOFF_BASE = 3 / 4"

text \<open>
  One call of \<open>sess.post\<close>: a reply with its status code and body, or a
  \<open>requests.RequestException\<close>. The transport is a parameter: it gives the result of the
  first, second, ... call for a slide.
\<close>

datatype http_result = Response nat string | RequestException

text \<open>
  How the \<open>while attempts < NET_MAX_ATTEMPTS\<close> loop is left: by \<open>break\<close> with a reply, by
  re-raising the transport error, or by its condition with \<open>resp\<close> still \<open>None\<close>.
\<close>

datatype post_exit = Replied nat string | Raised | NoReply

record tts_run =
  tts_attempts :: nat
  tts_sleeps :: "rat list"
  tts_exit :: post_exit

definition backoff :: "nat \<Rightarrow> rat" where
  "backoff attempts = NET_BACKOFF_BASE * 2 ^ (attempts - 1)"

function post_loop :: "(nat \<Rightarrow> http_result) \<Rightarrow> nat \<Rightarrow> rat list \<Rightarrow> tts_run" where
  "post_loop post attempts sleeps =
     (if attempts < NET_MAX_ATTEMPTS then
        (case post (Suc attempts) of
           Response code body \<Rightarrow>
             if code = 200 then
               \<lparr>tts_attempts = Suc attempts, tts_sleeps = sleeps, tts_exit = Replied code body\<rparr>
             else if 500 \<le> code \<and> code < 600 \<and> Suc attempts < NET_MAX_ATTEMPTS then
               post_loop post (Suc attempts) (sleeps @ [backoff (Suc attempts)])
             else
               \<lparr>tts_attempts = Suc attempts, tts_sleeps = sleeps, tts_exit = Replied code body\<rparr>
         | RequestException \<Rightarrow>
             if Suc attempts < NET_MAX_ATTEMPTS then
               post_loop post (Suc attempts) (sleeps @ [backoff (Suc attempts)])
             else
               \<lparr>tts_attempts = Suc attempts, tts_sleeps = sleeps, tts_exit = Raised\<rparr>)
      else \<lparr>tts_attempts = attempts, tts_sleeps = sleeps, tts_exit = NoReply\<rparr>)"
  by pat_completeness auto
termination
  by (relation "measure (\<lambda>(post, attempts, sleeps). NET_MAX_ATTEMPTS - attempts)") auto

declare post_loop.simps [simp del]

definition synthesize :: "(nat \<Rightarrow> http_result) \<Rightarrow> tts_run" where
  "synthesize post = post_loop post 0 []"


section \<open>The read-slide marker\<close>

text \<open>
  \<open>re.compile(r'###\s*read\s*slide', re.IGNORECASE)\<close>. A letter of the pattern matches
  itself and its upper-case form; any other character matches itself only.
\<close>

definition ci_char :: "char \<Rightarrow> char \<Rightarrow> bool" where
  "ci_char p c =
     (c = p \<or> (97 \<le> (of_char p :: nat) \<and> (of_char p :: nat) \<le> 122
              \<and> (of_char c :: nat) + 32 = of_char p))"

fun match_word :: "string \<Rightarrow> string \<Rightarrow> string option" where
  "match_word [] s = Some s"
| "match_word (p # ps) [] = None"
| "match_word (p # ps) (c # cs) = (if ci_char p c then match_word ps cs else None)"

text \<open>A match that starts at the head of the text; the result is what follows the match.\<close>

definition match_marker :: "string \<Rightarrow> string option" where
  "match_marker s =
     (case match_word ''###'' s of
        None \<Rightarrow> None
      | Some s1 \<Rightarrow>
          (case match_word ''read'' (dropWhile py_isspace s1) of
             None \<Rightarrow> None
           | Some s2 \<Rightarrow> match_word ''slide'' (dropWhile py_isspace s2)))"

text \<open>\<open>pattern.search(note)\<close> as a truth value.\<close>

fun marker_search :: "string \<Rightarrow> bool" where
  "marker_search [] = False"
| "marker_search (c # cs) = (match_marker (c # cs) \<noteq> None \<or> marker_search cs)"

lemma match_word_length: "match_word p s = Some r \<Longrightarrow> length s = length p + length r"
  by (induction p s rule: match_word.induct) (auto split: if_splits)

lemma match_marker_shorter:
  assumes "match_marker s = Some r"
  shows "length r < length s"
proof -
  from assms obtain s1 s2 where
    1: "match_word ''###'' s = Some s1" and
    2: "match_word ''read'' (dropWhile py_isspace s1) = Some s2" and
    3: "match_word ''slide'' (dropWhile py_isspace s2) = Some r"
    by (auto simp: match_marker_def split: option.splits)
  have "length (dropWhile py_isspace s1) \<le> length s1"
    and "length (dropWhile py_isspace s2) \<le> length s2"
    by (simp_all add: length_dropWhile_le)
  with match_word_length [OF 1] match_word_length [OF 2] match_word_length [OF 3]
  show ?thesis by simp
qed

text \<open>
  \<open>pattern.sub(repl, s)\<close> once the replacement is known for each matched text: the scan
  goes left to right and resumes behind each match.
\<close>

function sub_marker :: "(string \<Rightarrow> string) \<Rightarrow> string \<Rightarrow> string" where
  "sub_marker repl [] = []"
| "sub_marker repl (c # cs) =
     (case match_marker (c # cs) of
        Some rest \<Rightarrow> repl (take (length (c # cs) - length rest) (c # cs)) @ sub_marker repl rest
      | None \<Rightarrow> c # sub_marker repl cs)"
  by pat_completeness auto
termination
  by (relation "measure (\<lambda>(repl, s). length s)") (auto dest: match_marker_shorter)

text \<open>
  Helpers of the standard library that the model does not compute: the digests, taken as
  functions of what is hashed, and the expansion of a replacement template that contains a
  backslash (\<open>None\<close> when \<open>re\<close> rejects the template, otherwise the replacement for each
  matched text). A template without a backslash is taken literally.
\<close>

record stdlib =
  sha256_hex :: "string \<Rightarrow> string"
  md5_hex :: "string \<Rightarrow> string"
  re_template :: "string \<Rightarrow> (string \<Rightarrow> string) option"

definition py_sub :: "'a stdlib_scheme \<Rightarrow> string \<Rightarrow> string \<Rightarrow> string option" where
  "py_sub L repl s =
     (if CHR 0x5C \<notin> set repl then Some (sub_marker (\<lambda>_. repl) s)
      else map_option (\<lambda>f. sub_marker f s) (re_template L repl))"


section \<open>Slide text extraction: \<open>extract_slide_text\<close>\<close>

datatype placeholder_type = TITLE | OTHER_PLACEHOLDER

datatype shape_type = TABLE | OTHER_SHAPE

text \<open>
  A shape as \<open>extract_slide_text\<close> reads it. \<open>placeholder_type = None\<close>: reading
  \<open>placeholder_format.type\<close> raises (the bare \<open>except\<close> passes). \<open>shape_type = None\<close>: reading
  \<open>shape.shape_type\<close> raises, which ends the extraction. Positions are integers.
\<close>

record pptx_shape =
  shape_id :: int
  is_placeholder :: bool
  placeholder_type :: "placeholder_type option"
  has_group_items :: bool
  shape_type :: "shape_type option"
  has_text_frame :: bool
  frame_text :: string
  shape_top :: int
  shape_left :: int

fun find_title_id :: "pptx_shape list \<Rightarrow> int option" where
  "find_title_id [] = None"
| "find_title_id (sh # shs) =
     (if is_placeholder sh \<and> placeholder_type sh = Some TITLE then Some (shape_id sh)
      else find_title_id shs)"

fun collect_text :: "int option \<Rightarrow> pptx_shape list \<Rightarrow> (int \<times> int \<times> string) list option" where
  "collect_text title_shape_id [] = Some []"
| "collect_text title_shape_id (sh # shs) =
     (if Some (shape_id sh) = title_shape_id then collect_text title_shape_id shs
      else if has_group_items sh then collect_text title_shape_id shs
      else (case shape_type sh of
              None \<Rightarrow> None
            | Some ty \<Rightarrow>
                if ty = TABLE then collect_text title_shape_id shs
                else if has_text_frame sh \<and> py_strip (frame_text sh) \<noteq> [] then
                  map_option (\<lambda>items. (shape_top sh, shape_left sh, py_strip (frame_text sh)) # items)
                    (collect_text title_shape_id shs)
                else collect_text title_shape_id shs))"

fun py_join :: "string \<Rightarrow> string list \<Rightarrow> string" where
  "py_join sep [] = []"
| "py_join sep [x] = x"
| "py_join sep (x # y # ys) = x @ sep @ py_join sep (y # ys)"

text \<open>A slide as \<open>python-pptx\<close> reads it from the file: the text of its notes and its shapes.\<close>

record pptx_slide =
  notes_text :: string
  shapes :: "pptx_shape list"

text \<open>The texts in reading order: a stable sort on \<open>(top, left)\<close>.\<close>

definition reading_order :: "(int \<times> int \<times> string) list \<Rightarrow> string list" where
  "reading_order text_items = map (\<lambda>item. snd (snd item)) (sort_key (\<lambda>item. (fst item, fst (snd item))) text_items)"

text \<open>\<open>None\<close>: the extraction raised.\<close>

definition extract_slide_text :: "pptx_slide \<Rightarrow> string option" where
  "extract_slide_text slide =
     map_option (\<lambda>text_items. py_join [CHR 0x0A] (reading_order text_items))
       (collect_text (find_title_id (shapes slide)) (shapes slide))"


section \<open>The presentation host and the animation snapshot engine\<close>

datatype effect_category =
  Entrance | Exit | Emphasis | MotionPath | TextEntrance | TextExit | MediaPlay

datatype effect_trigger = OnClick | AfterPrevious | WithPrevious

record effect =
  target :: nat
  category :: effect_category
  trigger :: effect_trigger

record com_shape =
  com_id :: nat
  vox_audio :: bool

text \<open>A slide of the deck that the host has open: its shapes and its main animation sequence.\<close>

record com_slide =
  com_shapes :: "com_shape list"
  timeline :: "effect list"

text \<open>\<open>pp_pres.Slides(idx)\<close> and \<open>prs.slides[idx - 1]\<close> for a 1-based index; \<open>None\<close>: raises.\<close>

definition slide_at :: "'a list \<Rightarrow> int \<Rightarrow> 'a option" where
  "slide_at xs idx = (if 1 \<le> idx \<and> idx \<le> int (length xs) then Some (xs ! nat (idx - 1)) else None)"

definition put_slide :: "int \<Rightarrow> 'a \<Rightarrow> 'a list \<Rightarrow> 'a list" where
  "put_slide idx x xs = xs[nat (idx - 1) := x]"

definition orphaned :: "com_slide \<Rightarrow> effect \<Rightarrow> bool" where
  "orphaned sl e =
     (case find (\<lambda>sh. com_id sh = target e) (com_shapes sl) of
        None \<Rightarrow> True
      | Some sh \<Rightarrow> vox_audio sh)"

text \<open>
  Modelled from the spec: \<open>voxanimate.cleanup_orphaned_audio_effects\<close> is not among the
  sources. It removes the "orphaned effects left over from a prior failed run (effects whose
  target shape no longer exists or was a previous narration-audio shape)".
\<close>

definition cleanup_orphaned_audio_effects :: "com_slide \<Rightarrow> com_slide" where
  "cleanup_orphaned_audio_effects sl = sl\<lparr>timeline := filter (\<lambda>e. \<not> orphaned sl e) (timeline sl)\<rparr>"

record snapshot =
  effects :: "effect list"
  has_unsafe :: bool

definition unsafe_category :: "effect_category \<Rightarrow> bool" where
  "unsafe_category c = (c = TextEntrance \<or> c = TextExit)"

text \<open>
  Modelled from the spec: \<open>voxanimate.snapshot_slide_animations\<close> is not among the sources. It
  "walks the slide's animation timeline and records each effect's target, category, trigger,
  and order", with "a flag indicating whether any effect is of a category known to be unsafe to
  restore automatically (text-content animations)".
\<close>

definition snapshot_slide_animations :: "com_slide \<Rightarrow> snapshot" where
  "snapshot_slide_animations sl =
     \<lparr>effects = timeline sl, has_unsafe = list_ex (\<lambda>e. unsafe_category (category e)) (timeline sl)\<rparr>"

text \<open>
  Modelled from the spec: \<open>voxanimate.should_skip_audio_attachment\<close> is not among the sources.
  It "returns true when the snapshot contains any animation category that cannot be safely
  replayed after new media insertion".
\<close>

definition should_skip_audio_attachment :: "snapshot \<Rightarrow> bool" where
  "should_skip_audio_attachment snap = has_unsafe snap"

definition audio_effect :: "nat \<Rightarrow> effect" where
  "audio_effect audio_shape = \<lparr>target = audio_shape, category = MediaPlay, trigger = AfterPrevious\<rparr>"

fun replay :: "effect list \<Rightarrow> effect list \<Rightarrow> effect list" where
  "replay [] seq = seq"
| "replay (e # es) seq = replay es (seq @ [e])"

text \<open>
  Modelled from the spec: \<open>voxanimate.restore_slide_animations\<close> is not among the sources. It
  "clears the slide's entire live timeline, then replays every captured effect in its original
  order, and finally appends one new play-audio-after-previous effect bound to the newly
  inserted audio shape"; a failure is reported as \<open>False\<close> and, as the design notes put it,
  "logs and proceeds, leaving the clear in place". Whether the host lets it succeed is a
  parameter.
\<close>

definition restore_slide_animations :: "bool \<Rightarrow> com_slide \<Rightarrow> snapshot \<Rightarrow> nat \<Rightarrow> bool \<times> com_slide" where
  "restore_slide_animations fails sl snap audio_shape =
     (if fails then (False, sl\<lparr>timeline := []\<rparr>)
      else (True, sl\<lparr>timeline := replay (effects snap) [] @ [audio_effect audio_shape]\<rparr>))"

text \<open>
  Modelled from the spec: \<open>voxattach._delete_existing_vox_audio\<close> is not among the sources. It
  removes the narration audio shapes of earlier runs; the host drops the effects of a deleted
  shape.
\<close>

definition delete_existing_vox_audio :: "com_slide \<Rightarrow> com_slide" where
  "delete_existing_vox_audio sl =
     \<lparr>com_shapes = filter (\<lambda>sh. \<not> vox_audio sh) (com_shapes sl),
      timeline = filter (\<lambda>e. \<not> list_ex (\<lambda>sh. vox_audio sh \<and> com_id sh = target e) (com_shapes sl))
                   (timeline sl)\<rparr>"

text \<open>
  Modelled from the spec: \<open>voxattach._configure_play_settings\<close> and
  \<open>voxattach._append_media_play_after_previous\<close> are not among the sources. Together they are
  the "basic audio setup": the play settings of the shape, and one play-after-previous effect
  for it at the end of the sequence.
\<close>

definition append_media_play_after_previous :: "com_slide \<Rightarrow> nat \<Rightarrow> com_slide" where
  "append_media_play_after_previous sl audio_shape = sl\<lparr>timeline := timeline sl @ [audio_effect audio_shape]\<rparr>"

text \<open>
  The loop \<open>while seq.Count > 0: seq.Item(1).Delete()\<close>, which stops at the first deletion
  that raises. The parameter says after how many deletions that happens, if at all.
\<close>

fun clear_main_sequence :: "nat option \<Rightarrow> effect list \<Rightarrow> effect list" where
  "clear_main_sequence stop [] = []"
| "clear_main_sequence None (e # es) = clear_main_sequence None es"
| "clear_main_sequence (Some 0) (e # es) = e # es"
| "clear_main_sequence (Some (Suc k)) (e # es) = clear_main_sequence (Some k) es"

text \<open>
  \<open>slide.Shapes.AddMediaObject\<close> (or its fallback): a new shape with an unused id, which the
  orchestrator then marks as narration audio. The sequence is left as it is.
\<close>

definition fresh_shape_id :: "com_shape list \<Rightarrow> nat" where
  "fresh_shape_id shs = Suc (fold max (map com_id shs) 0)"

definition add_media_object :: "com_slide \<Rightarrow> nat \<times> com_slide" where
  "add_media_object sl =
     (fresh_shape_id (com_shapes sl),
      sl\<lparr>com_shapes := com_shapes sl @ [\<lparr>com_id = fresh_shape_id (com_shapes sl), vox_audio = True\<rparr>]\<rparr>)"


section \<open>The session manifest\<close>

record manifest_entry =
  m_slide :: int
  m_voice_id :: string
  m_text_sha256 :: string
  m_wav_md5 :: string
  m_wav_sha256 :: string
  m_bytes :: nat
  m_attempts :: nat
  m_http_status :: nat

text \<open>
  A file of the logs directory: a JSON document that is a list of entries (what \<open>json.dump\<close>
  wrote and \<open>json.load\<close> gives back), a JSON document of another shape, or bytes that are no
  JSON document, such as the text of a checksum file.
\<close>

datatype file_content =
  JsonList "manifest_entry list" | JsonOther string | Bytes string

record pylib = stdlib +
  json_dump :: "manifest_entry list \<Rightarrow> string"

definition file_bytes :: "'a pylib_scheme \<Rightarrow> file_content \<Rightarrow> string" where
  "file_bytes L c =
     (case c of JsonList es \<Rightarrow> json_dump L es | JsonOther b \<Rightarrow> b | Bytes b \<Rightarrow> b)"

text \<open>\<open>_sha256_file\<close> of a file that can be read.\<close>

definition sha256_file :: "'a pylib_scheme \<Rightarrow> file_content \<Rightarrow> string" where
  "sha256_file L c = sha256_hex L (file_bytes L c)"


section \<open>The run: \<open>generate_narration\<close>\<close>

text \<open>What the worker shows and what it asks of the host, in the order in which it happens.\<close>

datatype notice =
    ErrMissingApiKey | ErrMissingVoice | ErrDeckNotFound | ErrFfmpegNotFound | ErrOpenFailed
  | MsgNoSlidesSelected | LogAudioOnlyMode | ErrComOpenFailed | LogBackupComplete | LogCancelled
  | LogMarkerDetected | LogNoTextOnSlide | LogExtractError
  | LogDone | MsgComplete | LogDoneAudioOnly | MsgCompleteAudioOnly | LogSessionSaved
  | MsgCancelled | LogFatal | LogDeckSaved | LogSaveWarning

datatype slide_notice =
    LogNoAnimations | LogBackupFailed | LogSkipNoNotes | LogGenerating | LogNetworkError
  | LogConverted | LogAudioOnlySaved | LogSkipAttachment | LogInserting | LogAudioInserted
  | LogRestoreIssues | LogSnapshotUnavailable | LogSlideComplete | LogInsertionError

datatype host_op =
  CleanupOrphans | Snapshot | DeleteVoxAudio | ClearTimeline | InsertAudio | Restore | BasicSetup

text \<open>
  \<open>Show\<close>: a log line or message box that names no slide. \<open>Log\<close>: a log line about a
  slide. \<open>Op\<close>: a call to the host on a slide. \<open>Posted\<close>: the requests for a slide, with the
  number of calls of \<open>sess.post\<close> and the sleeps between them. \<open>OpFfmpeg\<close>: the transcoder
  call with the exit status it returned. \<open>OpSave\<close>: \<open>pp_pres.Save()\<close>.
\<close>

datatype event =
    Show notice
  | Log slide_notice int
  | LogLoaded int "int list"
  | LogBackedUp int nat | LogExtracted nat | LogApiError int nat | LogRestored int nat
  | Op host_op int
  | Posted int nat "rat list" | OpFfmpeg int int
  | OpSave

text \<open>
  What the surroundings decide for one slide: the replies of the service, the exit status of
  the transcoder, and which of the calls to the file system and to the host raise.
\<close>

record slide_oracle =
  so_post :: "nat \<Rightarrow> http_result"
  so_tmp_write_raises :: bool
  so_manifest_write_raises :: bool
  so_checksum_write_raises :: bool
  so_ffmpeg_exit :: int
  so_cleanup_raises :: bool
  so_snapshot_raises :: bool
  so_delete_vox_raises :: bool
  so_clear_stops :: "nat option"
  so_insert_raises :: bool
  so_restore_fails :: bool
  so_basic_setup_raises :: bool
  so_save_raises :: bool

text \<open>
  The arguments of a run and its surroundings. \<open>prs = None\<close>: \<open>Presentation(input_file)\<close>
  raises. \<open>cancel_after = Some k\<close>: the cancel event is set from the \<open>k\<close>-th poll on (polls
  counted from 0); it is never cleared while the worker runs.
\<close>

record run_env =
  api_key :: string
  voice_id :: string
  input_is_file :: bool
  ffmpeg_available :: bool
  deck_base :: string
  session_ts :: string
  prs :: "pptx_slide list option"
  slide_range_spec :: string
  audio_only :: bool
  com_open_raises :: bool
  final_save_raises :: bool
  cancel_after :: "nat option"
  slide_env :: "int \<Rightarrow> slide_oracle"
  lib :: pylib

record run_state =
  trace :: "event list"
  polls :: nat
  processed :: nat
  live :: "com_slide list"
  saved :: "com_slide list"
  files :: "string \<Rightarrow> file_content option"

definition emit :: "event list \<Rightarrow> run_state \<Rightarrow> run_state" where
  "emit evs st = st\<lparr>trace := trace st @ evs\<rparr>"

definition count_processed :: "run_state \<Rightarrow> run_state" where
  "count_processed st = st\<lparr>processed := Suc (processed st)\<rparr>"

definition cancel_is_set :: "run_env \<Rightarrow> run_state \<Rightarrow> bool" where
  "cancel_is_set env st = (case cancel_after env of None \<Rightarrow> False | Some k \<Rightarrow> k \<le> polls st)"

definition polled :: "run_state \<Rightarrow> run_state" where
  "polled st = st\<lparr>polls := Suc (polls st)\<rparr>"


subsection \<open>Notes of a slide (lines 1062-1090)\<close>

text \<open>The log lines of the resolution and the final text of the notes.\<close>

definition resolve_note :: "'a stdlib_scheme \<Rightarrow> pptx_slide \<Rightarrow> event list \<times> string" where
  "resolve_note L s =
     (let note = py_strip (notes_text s) in
      if marker_search note then
        (case extract_slide_text s of
           None \<Rightarrow>
             ([Show LogMarkerDetected, Show LogExtractError], py_strip (sub_marker (\<lambda>_. []) note))
         | Some slide_text \<Rightarrow>
             if slide_text \<noteq> [] then
               (case py_sub L slide_text note of
                  None \<Rightarrow>
                    ([Show LogMarkerDetected, Show LogExtractError],
                     py_strip (sub_marker (\<lambda>_. []) note))
                | Some note' \<Rightarrow>
                    ([Show LogMarkerDetected, LogExtracted (length slide_text)], note'))
             else
               ([Show LogMarkerDetected, Show LogNoTextOnSlide],
                py_strip (sub_marker (\<lambda>_. []) note)))
      else ([], note))"

subsection \<open>Manifest and checksum (lines 1135-1155)\<close>

definition manifest_path :: "run_env \<Rightarrow> string" where
  "manifest_path env = deck_base env @ ''_'' @ session_ts env @ ''_manifest.json''"

definition checksum_path :: "run_env \<Rightarrow> string" where
  "checksum_path env = manifest_path env @ ''.sha256''"

text \<open>
  The list that the new entry is appended to: the list in the file, the empty list when the
  file is missing or is no JSON, and \<open>None\<close> when the document is no list, so that
  \<open>manifest.append\<close> raises.
\<close>

definition load_manifest :: "file_content option \<Rightarrow> manifest_entry list option" where
  "load_manifest c =
     (case c of
        None \<Rightarrow> Some []
      | Some (JsonList es) \<Rightarrow> Some es
      | Some (JsonOther b) \<Rightarrow> None
      | Some (Bytes b) \<Rightarrow> Some [])"

definition new_entry :: "run_env \<Rightarrow> int \<Rightarrow> string \<Rightarrow> nat \<Rightarrow> nat \<Rightarrow> string \<Rightarrow> manifest_entry" where
  "new_entry env idx note attempts code body =
     \<lparr>m_slide = idx, m_voice_id = voice_id env,
      m_text_sha256 = take 8 (sha256_hex (lib env) note),
      m_wav_md5 = take 8 (md5_hex (lib env) body),
      m_wav_sha256 = sha256_hex (lib env) body,
      m_bytes = length body, m_attempts = attempts, m_http_status = code\<rparr>"

definition record_manifest :: "run_env \<Rightarrow> int \<Rightarrow> string \<Rightarrow> nat \<Rightarrow> nat \<Rightarrow> string \<Rightarrow> run_state \<Rightarrow> run_state" where
  "record_manifest env idx note attempts code body st =
     (case load_manifest (files st (manifest_path env)) of
        None \<Rightarrow> st
      | Some manifest \<Rightarrow>
          if so_manifest_write_raises (slide_env env idx) then st
          else if so_checksum_write_raises (slide_env env idx) then
            st\<lparr>files := (files st)
                 (manifest_path env \<mapsto> JsonList (manifest @ [new_entry env idx note attempts code body]))\<rparr>
          else
            st\<lparr>files := (files st)
                 (manifest_path env \<mapsto> JsonList (manifest @ [new_entry env idx note attempts code body]),
                  checksum_path env \<mapsto>
                    Bytes (sha256_file (lib env)
                      (JsonList (manifest @ [new_entry env idx note attempts code body]))))\<rparr>)"

subsection \<open>Audio insertion and animation restore (lines 1185-1260)\<close>

definition save_slide :: "slide_oracle \<Rightarrow> int \<Rightarrow> run_state \<Rightarrow> run_state" where
  "save_slide so idx st =
     (if so_save_raises so then emit [Log LogInsertionError idx] st
      else emit [OpSave, Log LogSlideComplete idx] (st\<lparr>saved := live st\<rparr>))"

definition finish_attach ::
  "slide_oracle \<Rightarrow> int \<Rightarrow> snapshot option \<Rightarrow> nat \<Rightarrow> com_slide \<Rightarrow> run_state \<Rightarrow> run_state" where
  "finish_attach so idx snap audio_shape sl st =
     (case snap of
        Some sn \<Rightarrow>
          (case restore_slide_animations (so_restore_fails so) sl sn audio_shape of
             (success, sl') \<Rightarrow>
               save_slide so idx
                 (emit [Op Restore idx,
                        if success then
                          (if effects sn \<noteq> [] then LogRestored idx (length (effects sn))
                           else Log LogAudioInserted idx)
                        else Log LogRestoreIssues idx]
                    (st\<lparr>live := put_slide idx sl' (live st)\<rparr>)))
      | None \<Rightarrow>
          if so_basic_setup_raises so then emit [Log LogInsertionError idx] st
          else
            save_slide so idx
              (emit [Op BasicSetup idx, Log LogSnapshotUnavailable idx]
                 (st\<lparr>live := put_slide idx (append_media_play_after_previous sl audio_shape) (live st)\<rparr>)))"

definition attach_slide :: "slide_oracle \<Rightarrow> snapshot option \<Rightarrow> int \<Rightarrow> run_state \<Rightarrow> run_state" where
  "attach_slide so snap idx st =
     (case slide_at (live st) idx of
        None \<Rightarrow> emit [Log LogInserting idx, Log LogInsertionError idx] st
      | Some sl \<Rightarrow>
          if so_delete_vox_raises so then emit [Log LogInserting idx, Log LogInsertionError idx] st
          else
            (let sl1 = delete_existing_vox_audio sl;
                 sl2 = sl1\<lparr>timeline := clear_main_sequence (so_clear_stops so) (timeline sl1)\<rparr>;
                 st2 = emit [Log LogInserting idx, Op DeleteVoxAudio idx, Op ClearTimeline idx]
                         (st\<lparr>live := put_slide idx sl2 (live st)\<rparr>)
             in if so_insert_raises so then emit [Log LogInsertionError idx] st2
                else
                  (case add_media_object sl2 of
                     (audio_shape, sl3) \<Rightarrow>
                       finish_attach so idx snap audio_shape sl3
                         (emit [Op InsertAudio idx] (st2\<lparr>live := put_slide idx sl3 (live st2)\<rparr>)))))"

subsection \<open>One slide of the main loop (lines 1056-1266)\<close>

text \<open>\<open>Next\<close>: the loop goes on; \<open>Fatal\<close>: an exception leaves the loop for the worker's handler.\<close>

datatype step_exit = Next | Fatal

text \<open>\<open>animation_snapshots.get(idx)\<close>; a failed backup stores \<open>None\<close> under the key.\<close>

definition snapshot_for :: "(int \<times> snapshot option) list \<Rightarrow> int \<Rightarrow> snapshot option" where
  "snapshot_for snaps idx = (case map_of snaps idx of None \<Rightarrow> None | Some v \<Rightarrow> v)"

definition after_synthesis ::
  "run_env \<Rightarrow> (int \<times> snapshot option) list \<Rightarrow> int \<Rightarrow> string \<Rightarrow> nat \<Rightarrow> nat \<Rightarrow> string \<Rightarrow> run_state
     \<Rightarrow> step_exit \<times> run_state" where
  "after_synthesis env snaps idx note attempts code body st =
     (if so_tmp_write_raises (slide_env env idx) then (Fatal, st)
      else
        (let st1 = emit [OpFfmpeg idx (so_ffmpeg_exit (slide_env env idx)), Log LogConverted idx]
                     (record_manifest env idx note attempts code body st)
         in if audio_only env then (Next, count_processed (emit [Log LogAudioOnlySaved idx] st1))
            else
              (case snapshot_for snaps idx of
                 Some snap \<Rightarrow>
                   if should_skip_audio_attachment snap then
                     (Next, count_processed (emit [Log LogSkipAttachment idx] st1))
                   else (Next, count_processed (attach_slide (slide_env env idx) (Some snap) idx st1))
               | None \<Rightarrow> (Next, count_processed (attach_slide (slide_env env idx) None idx st1)))))"

definition process_slide ::
  "run_env \<Rightarrow> pptx_slide list \<Rightarrow> (int \<times> snapshot option) list \<Rightarrow> int \<Rightarrow> run_state
     \<Rightarrow> step_exit \<times> run_state" where
  "process_slide env slides snaps idx st =
     (case slide_at slides idx of
        None \<Rightarrow> (Fatal, st)
      | Some s \<Rightarrow>
          (case resolve_note (lib env) s of
             (evs, note) \<Rightarrow>
               if note = [] then (Next, count_processed (emit (evs @ [Log LogSkipNoNotes idx]) st))
               else
                 (let r = synthesize (so_post (slide_env env idx));
                      st1 = emit (evs @ [Log LogGenerating idx, Posted idx (tts_attempts r) (tts_sleeps r)]) st
                  in case tts_exit r of
                       Raised \<Rightarrow> (Next, count_processed (emit [Log LogNetworkError idx] st1))
                     | NoReply \<Rightarrow> (Fatal, st1)
                     | Replied code body \<Rightarrow>
                         if code = 200 then
                           after_synthesis env snaps idx note (tts_attempts r) code body st1
                         else (Next, count_processed (emit [LogApiError idx code] st1)))))"

fun process_slides ::
  "run_env \<Rightarrow> pptx_slide list \<Rightarrow> (int \<times> snapshot option) list \<Rightarrow> int list \<Rightarrow> run_state
     \<Rightarrow> step_exit \<times> run_state" where
  "process_slides env slides snaps [] st = (Next, st)"
| "process_slides env slides snaps (idx # rest) st =
     (if cancel_is_set env st then (Next, emit [Show LogCancelled] (polled st))
      else (case process_slide env slides snaps idx (polled st) of
              (Fatal, st') \<Rightarrow> (Fatal, st')
            | (Next, st') \<Rightarrow> process_slides env slides snaps rest st'))"

subsection \<open>The animation backup (lines 1022-1048)\<close>

definition backup_slide ::
  "run_env \<Rightarrow> int \<Rightarrow> (int \<times> snapshot option) list \<times> run_state
     \<Rightarrow> (int \<times> snapshot option) list \<times> run_state" where
  "backup_slide env idx ms =
     (case ms of (snaps, st) \<Rightarrow>
        (case slide_at (live st) idx of
           None \<Rightarrow> ((idx, None) # snaps, emit [Log LogBackupFailed idx] st)
         | Some sl \<Rightarrow>
             if so_cleanup_raises (slide_env env idx) then
               ((idx, None) # snaps, emit [Log LogBackupFailed idx] st)
             else if so_snapshot_raises (slide_env env idx) then
               ((idx, None) # snaps,
                emit [Op CleanupOrphans idx, Log LogBackupFailed idx]
                  (st\<lparr>live := put_slide idx (cleanup_orphaned_audio_effects sl) (live st)\<rparr>))
             else
               ((idx, Some (snapshot_slide_animations (cleanup_orphaned_audio_effects sl))) # snaps,
                emit [Op CleanupOrphans idx, Op Snapshot idx,
                      if timeline (cleanup_orphaned_audio_effects sl) \<noteq> [] then
                        LogBackedUp idx (length (timeline (cleanup_orphaned_audio_effects sl)))
                      else Log LogNoAnimations idx]
                  (st\<lparr>live := put_slide idx (cleanup_orphaned_audio_effects sl) (live st)\<rparr>))))"

fun backup_slides ::
  "run_env \<Rightarrow> int list \<Rightarrow> (int \<times> snapshot option) list \<times> run_state
     \<Rightarrow> (int \<times> snapshot option) list \<times> run_state" where
  "backup_slides env [] ms = ms"
| "backup_slides env (idx # rest) ms =
     (if cancel_is_set env (snd ms) then (fst ms, polled (snd ms))
      else backup_slides env rest (backup_slide env idx (fst ms, polled (snd ms))))"

subsection \<open>The worker\<close>

text \<open>The block after the loop (lines 1268-1280): what the user is told at the end.\<close>

definition completion_report :: "bool \<Rightarrow> bool \<Rightarrow> event list" where
  "completion_report cancelled audio_only_mode =
     (if \<not> cancelled then
        (if audio_only_mode then [Show LogDoneAudioOnly, Show MsgCompleteAudioOnly, Show LogSessionSaved]
         else [Show LogDone, Show MsgComplete, Show LogSessionSaved])
      else [Show MsgCancelled])"

definition run_slides ::
  "run_env \<Rightarrow> pptx_slide list \<Rightarrow> (int \<times> snapshot option) list \<Rightarrow> int list \<Rightarrow> run_state \<Rightarrow> run_state" where
  "run_slides env slides snaps sel st =
     (case process_slides env slides snaps sel st of
        (Fatal, st') \<Rightarrow> emit [Show LogFatal] st'
      | (Next, st') \<Rightarrow>
          emit (completion_report (cancel_is_set env st') (audio_only env)) (polled st'))"

text \<open>
  The \<open>try\<close> block of the worker. The first component of the result says whether
  \<open>pp_pres\<close> holds the deck when the block is left.
\<close>

definition worker_body :: "run_env \<Rightarrow> run_state \<Rightarrow> bool \<times> run_state" where
  "worker_body env st =
     (if py_strip (api_key env) = [] then (False, emit [Show ErrMissingApiKey] st)
      else if py_strip (voice_id env) = [] then (False, emit [Show ErrMissingVoice] st)
      else if \<not> input_is_file env then (False, emit [Show ErrDeckNotFound] st)
      else if \<not> ffmpeg_available env then (False, emit [Show ErrFfmpegNotFound] st)
      else
        (case prs env of
           None \<Rightarrow> (False, emit [Show ErrOpenFailed] st)
         | Some slides \<Rightarrow>
             (let sel = select_slides (int (length slides)) (slide_range_spec env);
                  st1 = emit [LogLoaded (int (length slides)) sel] st
              in if sel = [] then (False, emit [Show MsgNoSlidesSelected] st1)
                 else if audio_only env then
                   (False, run_slides env slides [] sel (emit [Show LogAudioOnlyMode] st1))
                 else if com_open_raises env then (False, emit [Show ErrComOpenFailed] st1)
                 else
                   (case backup_slides env sel ([], st1) of
                      (snaps, st2) \<Rightarrow>
                        (True, run_slides env slides snaps sel (emit [Show LogBackupComplete] st2))))))"

text \<open>The \<open>finally\<close> block: the deck is saved whenever the host holds it.\<close>

definition worker_finally :: "run_env \<Rightarrow> bool \<times> run_state \<Rightarrow> run_state" where
  "worker_finally env r =
     (case r of (pp_pres, st) \<Rightarrow>
        if \<not> audio_only env \<and> pp_pres then
          (if final_save_raises env then emit [Show LogSaveWarning] st
           else emit [OpSave, Show LogDeckSaved] (st\<lparr>saved := live st\<rparr>))
        else st)"

definition worker :: "run_env \<Rightarrow> run_state \<Rightarrow> run_state" where
  "worker env st = worker_finally env (worker_body env st)"

text \<open>
  \<open>normalize_audio\<close>, the transcoding helper with \<open>check=True\<close>: a non-zero exit status
  raises \<open>CalledProcessError\<close> (\<open>None\<close>); otherwise the output file is returned.
\<close>

definition normalize_audio :: "int \<Rightarrow> string \<Rightarrow> string option" where
  "normalize_audio exit_status output_file = (if exit_status \<noteq> 0 then None else Some output_file)"


section \<open>Vocabulary for the properties\<close>

text \<open>A reply or error after which the loop may try again.\<close>

definition retryable :: "http_result \<Rightarrow> bool" where
  "retryable x = (case x of RequestException \<Rightarrow> True | Response code body \<Rightarrow> 500 \<le> code \<and> code < 600)"

text \<open>The events of the backup loop, and the events that the main loop can produce.\<close>

fun backup_event :: "event \<Rightarrow> bool" where
  "backup_event (Op op idx) = (op = CleanupOrphans \<or> op = Snapshot)"
| "backup_event (Log n idx) = (n = LogNoAnimations \<or> n = LogBackupFailed)"
| "backup_event (LogBackedUp idx n) = True"
| "backup_event e = False"

fun slide_event :: "event \<Rightarrow> bool" where
  "slide_event (Show n) =
     (n = LogMarkerDetected \<or> n = LogNoTextOnSlide \<or> n = LogExtractError \<or> n = LogCancelled)"
| "slide_event (Log n idx) = (n \<noteq> LogNoAnimations \<and> n \<noteq> LogBackupFailed)"
| "slide_event (Op op idx) = (op \<noteq> CleanupOrphans \<and> op \<noteq> Snapshot)"
| "slide_event (LogLoaded t sel) = False"
| "slide_event (LogBackedUp idx n) = False"
| "slide_event e = True"


text \<open>What the user is told when the loop is over.\<close>

fun summary_event :: "event \<Rightarrow> bool" where
  "summary_event (Show n) =
     (n = LogDone \<or> n = MsgComplete \<or> n = LogDoneAudioOnly \<or> n = MsgCompleteAudioOnly
      \<or> n = LogSessionSaved \<or> n = MsgCancelled)"
| "summary_event e = False"

definition extends_by :: "(event \<Rightarrow> bool) \<Rightarrow> run_state \<Rightarrow> run_state \<Rightarrow> bool" where
  "extends_by P st st' = (\<exists>evs. trace st' = trace st @ evs \<and> list_all P evs)"

definition news :: "run_state \<Rightarrow> run_state \<Rightarrow> event list" where
  "news st st' = drop (length (trace st)) (trace st')"

text \<open>The entries of the manifest of the session, and whether its checksum file verifies.\<close>

definition manifest_entries :: "run_env \<Rightarrow> run_state \<Rightarrow> manifest_entry list" where
  "manifest_entries env st =
     (case files st (manifest_path env) of Some (JsonList es) \<Rightarrow> es | _ \<Rightarrow> [])"

definition checksum_verifies :: "run_env \<Rightarrow> run_state \<Rightarrow> bool" where
  "checksum_verifies env st =
     (case files st (manifest_path env) of
        None \<Rightarrow> False
      | Some doc \<Rightarrow> files st (checksum_path env) = Some (Bytes (sha256_file (lib env) doc)))"

subsection \<open>An example run\<close>

definition demo_lib :: pylib where
  "demo_lib =
     \<lparr>sha256_hex = (\<lambda>s. ''sha256 '' @ s), md5_hex = (\<lambda>s. ''md5 '' @ s),
      re_template = (\<lambda>_. None),
      json_dump = (\<lambda>es. concat (map m_text_sha256 es))\<rparr>"

text \<open>Every call succeeds; the service answers 200 at once.\<close>

definition ok_oracle :: slide_oracle where
  "ok_oracle =
     \<lparr>so_post = (\<lambda>_. Response 200 ''RIFF''), so_tmp_write_raises = False,
      so_manifest_write_raises = False, so_checksum_write_raises = False, so_ffmpeg_exit = 0,
      so_cleanup_raises = False, so_snapshot_raises = False, so_delete_vox_raises = False,
      so_clear_stops = None, so_insert_raises = False, so_restore_fails = False,
      so_basic_setup_raises = False, so_save_raises = False\<rparr>"

definition text_box :: "int \<Rightarrow> int \<Rightarrow> string \<Rightarrow> pptx_shape" where
  "text_box t l x =
     \<lparr>shape_id = 2, is_placeholder = False, placeholder_type = None, has_group_items = False,
      shape_type = Some OTHER_SHAPE, has_text_frame = True, frame_text = x,
      shape_top = t, shape_left = l\<rparr>"

text \<open>Two slides: the first reads its two text boxes, the second has no notes.\<close>

definition demo_slides :: "pptx_slide list" where
  "demo_slides =
     [\<lparr>notes_text = ''Hello ### Read Slide'', shapes = [text_box 5 0 ''B'', text_box 1 0 ''A'']\<rparr>,
      \<lparr>notes_text = [], shapes = []\<rparr>]"

definition demo_env :: run_env where
  "demo_env =
     \<lparr>api_key = ''k'', voice_id = ''v'', input_is_file = True, ffmpeg_available = True,
      deck_base = ''deck'', session_ts = ''20250101_120000'', prs = Some demo_slides,
      slide_range_spec = [], audio_only = False, com_open_raises = False,
      final_save_raises = False, cancel_after = None, slide_env = (\<lambda>_. ok_oracle),
      lib = demo_lib\<rparr>"

definition fade :: effect where
  "fade = \<lparr>target = 1, category = Entrance, trigger = OnClick\<rparr>"

definition demo_deck :: "com_slide list" where
  "demo_deck =
     [\<lparr>com_shapes = [\<lparr>com_id = 1, vox_audio = False\<rparr>], timeline = [fade]\<rparr>,
      \<lparr>com_shapes = [], timeline = []\<rparr>]"

definition demo_state :: run_state where
  "demo_state =
     \<lparr>trace = [], polls = 0, processed = 0, live = demo_deck, saved = demo_deck,
      files = Map.empty\<rparr>"

text \<open>
  The reading of "a token that parses to no valid index", taken from the specification's
  wording: none of the fields that \<open>-\<close> separates is an integer within \<open>1..tot\<close>.
\<close>

definition malformed_token :: "int \<Rightarrow> string \<Rightarrow> bool" where
  "malformed_token tot part =
     list_all (\<lambda>f. case py_int f of None \<Rightarrow> True | Some n \<Rightarrow> \<not> (1 \<le> n \<and> n \<le> tot))
       (py_split (CHR ''-'') part)"


section \<open>Properties of slide selection\<close>

lemma py_split_absent: "sep \<notin> set s \<Longrightarrow> py_split sep s = [s]"
  by (induction s) auto

lemma part_indices_plain:
  assumes "CHR ''-'' \<notin> set part" and "malformed_token tot part"
  shows "part_indices tot part = []"
proof -
  from assms(1) have "py_split (CHR ''-'') part = [part]"
    by (rule py_split_absent)
  with assms(2) have "case py_int part of None \<Rightarrow> True | Some n \<Rightarrow> \<not> (1 \<le> n \<and> n \<le> tot)"
    by (simp add: malformed_token_def)
  with assms(1) show ?thesis
    by (auto simp: part_indices_def split: option.splits)
qed

lemma part_indices_defaults:
  assumes "CHR ''-'' \<in> set part"
    and "py_int (fst (py_split_first (CHR ''-'') part)) = None"
    and "py_int (snd (py_split_first (CHR ''-'') part)) = None"
  shows "part_indices tot part = [1..tot]"
proof -
  obtain a b where ab: "py_split_first (CHR ''-'') part = (a, b)"
    by (cases "py_split_first (CHR ''-'') part")
  with assms(2,3) have "bound_or 1 a = 1" and "bound_or tot b = tot"
    by (simp_all add: bound_or_def)
  with assms(1) ab show ?thesis
    by (simp add: part_indices_def)
qed

text \<open>
  Claim C6, as the code has it. No selection expression is fatal: \<open>select_slides\<close> is a total
  function, and for a non-blank expression its result is the ascending, duplicate-free list of
  the indices that the tokens contribute. A token without \<open>-\<close> that is no integer within
  \<open>1..tot\<close> contributes nothing. A token with \<open>-\<close> is never skipped for being unparsable: a side
  that is not an integer takes its default, so a token with two such sides selects every slide.
\<close>

theorem select_slides_tokens:
  "(py_strip spec \<noteq> [] \<longrightarrow>
      set (select_slides tot spec) = (\<Union>part \<in> set (spec_parts spec). set (part_indices tot part))
      \<and> sorted (select_slides tot spec) \<and> distinct (select_slides tot spec))
   \<and> (CHR ''-'' \<notin> set p \<and> malformed_token tot p \<longrightarrow> part_indices tot p = [])
   \<and> (CHR ''-'' \<in> set q \<and> py_int (fst (py_split_first (CHR ''-'') q)) = None
        \<and> py_int (snd (py_split_first (CHR ''-'') q)) = None \<longrightarrow> part_indices tot q = [1..tot])"
  by (simp add: select_slides_def part_indices_plain part_indices_defaults)

theorem select_slides_tokens_witness:
  "py_strip ''3-6,x,1,20'' \<noteq> []
   \<and> select_slides 10 ''3-6,x,1,20'' = [1, 3, 4, 5, 6]
   \<and> set (select_slides 10 ''3-6,x,1,20'')
       = (\<Union>part \<in> set (spec_parts ''3-6,x,1,20''). set (part_indices 10 part))
   \<and> CHR ''-'' \<notin> set ''x'' \<and> malformed_token 10 ''x'' \<and> part_indices 10 ''x'' = []
   \<and> CHR ''-'' \<in> set ''abc-def''
   \<and> py_int (fst (py_split_first (CHR ''-'') ''abc-def'')) = None
   \<and> py_int (snd (py_split_first (CHR ''-'') ''abc-def'')) = None
   \<and> part_indices 10 ''abc-def'' = [1..10]"
proof -
  have a: "py_strip ''3-6,x,1,20'' \<noteq> []" by code_simp
  have b: "select_slides 10 ''3-6,x,1,20'' = [1, 3, 4, 5, 6]" by code_simp
  have c: "CHR ''-'' \<notin> set ''x'' \<and> malformed_token 10 ''x''" by code_simp
  have d: "CHR ''-'' \<in> set ''abc-def''
      \<and> py_int (fst (py_split_first (CHR ''-'') ''abc-def'')) = None
      \<and> py_int (snd (py_split_first (CHR ''-'') ''abc-def'')) = None" by code_simp
  from a b c d
    select_slides_tokens [where spec = "''3-6,x,1,20''" and tot = 10 and p = "''x''" and q = "''abc-def''"]
  show ?thesis by simp
qed

text \<open>
  The claim as the specification words it fails on a range token: neither side of
  \<open>abc-def\<close> is an integer, yet the token selects all three slides.
\<close>

theorem select_slides_malformed_range_counterexample:
  "malformed_token 3 ''abc-def''
   \<and> ''abc-def'' \<in> set (spec_parts ''abc-def'')
   \<and> py_int ''abc'' = None \<and> py_int ''def'' = None \<and> py_int ''abc-def'' = None
   \<and> part_indices 3 ''abc-def'' = [1, 2, 3]
   \<and> select_slides 3 ''abc-def'' = [1, 2, 3]"
  by code_simp

section \<open>Lemmas: Requests and retries\<close>

lemma post_loop_3: "post_loop post (Suc (Suc (Suc 0))) sl = \<lparr>tts_attempts = 3, tts_sleeps = sl, tts_exit = NoReply\<rparr>"
  by (subst post_loop.simps) (simp add: NET_MAX_ATTEMPTS_def)

lemma post_loop_2: "post_loop post (Suc (Suc 0)) sl =
   (case post 3 of Response code body \<Rightarrow> \<lparr>tts_attempts = 3, tts_sleeps = sl, tts_exit = Replied code body\<rparr>
    | RequestException \<Rightarrow> \<lparr>tts_attempts = 3, tts_sleeps = sl, tts_exit = Raised\<rparr>)"
  by (subst post_loop.simps) (simp add: NET_MAX_ATTEMPTS_def numeral_3_eq_3 split: http_result.splits)

lemma post_loop_1: "post_loop post (Suc 0) sl =
   (case post 2 of
      Response code body \<Rightarrow>
        if code \<noteq> 200 \<and> 500 \<le> code \<and> code < 600 then post_loop post (Suc (Suc 0)) (sl @ [3 / 2])
        else \<lparr>tts_attempts = 2, tts_sleeps = sl, tts_exit = Replied code body\<rparr>
    | RequestException \<Rightarrow> post_loop post (Suc (Suc 0)) (sl @ [3 / 2]))"
  by (subst post_loop.simps) (simp add: NET_MAX_ATTEMPTS_def backoff_def NET_BACKOFF_BASE_def numeral_2_eq_2 split: http_result.splits)

lemma post_loop_0: "post_loop post 0 sl =
   (case post 1 of
      Response code body \<Rightarrow>
        if code \<noteq> 200 \<and> 500 \<le> code \<and> code < 600 then post_loop post (Suc 0) (sl @ [3 / 4])
        else \<lparr>tts_attempts = 1, tts_sleeps = sl, tts_exit = Replied code body\<rparr>
    | RequestException \<Rightarrow> post_loop post (Suc 0) (sl @ [3 / 4]))"
  by (subst post_loop.simps) (simp add: NET_MAX_ATTEMPTS_def backoff_def NET_BACKOFF_BASE_def split: http_result.splits)

lemmas post_loop_unfold = post_loop_0 post_loop_1 post_loop_2

lemma synthesize_attempts: "1 \<le> tts_attempts (synthesize post) \<and> tts_attempts (synthesize post) \<le> 3"
  unfolding synthesize_def
  by (simp add: post_loop_unfold split: http_result.splits)

lemma synthesize_sleeps: "tts_sleeps (synthesize post) = map (\<lambda>k. (3 / 4) * 2 ^ k) [0..<tts_attempts (synthesize post) - 1]"
  unfolding synthesize_def
  by (simp add: post_loop_unfold upt_conv_Cons split: http_result.splits)

lemma synthesize_retry_only: "1 \<le> k \<Longrightarrow> k < tts_attempts (synthesize post) \<Longrightarrow> retryable (post k)"
proof -
  assume k: "1 \<le> k" "k < tts_attempts (synthesize post)"
  from k(2) synthesize_attempts [of post] have "k = 1 \<or> k = 2" using k(1) by arith
  with k(2) show ?thesis
    unfolding synthesize_def
    by (auto simp: post_loop_unfold retryable_def split: http_result.splits if_splits)
qed

lemma synthesize_stops: "1 \<le> k \<Longrightarrow> k \<le> tts_attempts (synthesize post) \<Longrightarrow> post k = Response c b \<Longrightarrow> \<not> (500 \<le> c \<and> c < 600)
   \<Longrightarrow> tts_attempts (synthesize post) = k \<and> tts_exit (synthesize post) = Replied c b"
proof -
  assume k: "1 \<le> k" "k \<le> tts_attempts (synthesize post)" and p: "post k = Response c b" "\<not> (500 \<le> c \<and> c < 600)"
  from k synthesize_attempts [of post] have "k = 1 \<or> k = 2 \<or> k = 3" by arith
  with k(2) p show ?thesis
    unfolding synthesize_def
    by (auto simp: post_loop_unfold split: http_result.splits if_splits)
qed

section \<open>Lemmas: Traces\<close>

lemma extends_refl: "extends_by P st st"
  by (simp add: extends_by_def)

lemma extends_trans: "extends_by P a b \<Longrightarrow> extends_by P b c \<Longrightarrow> extends_by P a c"
  by (auto simp: extends_by_def)

lemma extends_emit: "list_all P evs \<Longrightarrow> extends_by P st st' \<Longrightarrow> extends_by P st (emit evs st')"
  by (auto simp: extends_by_def emit_def)

lemma extends_same_trace: "trace st' = trace st \<Longrightarrow> extends_by P st st'"
  by (simp add: extends_by_def)

lemma trace_simps [simp]:
  "trace (polled st) = trace st"
  "trace (count_processed st) = trace st"
  "trace (emit evs st) = trace st @ evs"
  by (simp_all add: polled_def count_processed_def emit_def)

lemma trace_record_manifest [simp]: "trace (record_manifest env idx note a c b st) = trace st"
  by (simp add: record_manifest_def split: option.splits)

lemma resolve_note_events: "list_all slide_event (fst (resolve_note L s))"
  by (simp add: resolve_note_def Let_def split: option.splits)


lemma extends_news:
  assumes "extends_by P st st'"
  shows "trace st' = trace st @ news st st'" and "list_all P (news st st')"
  using assms by (auto simp: extends_by_def news_def)

lemma save_slide_extends: "extends_by slide_event st (save_slide so idx st)"
  by (simp add: save_slide_def extends_by_def)

lemma finish_attach_extends: "extends_by slide_event st (finish_attach so idx snap a sl st)"
  by (auto simp: finish_attach_def restore_slide_animations_def save_slide_def extends_by_def split: option.splits)

lemmas finish_attach_news = extends_news [OF finish_attach_extends]

lemma attach_slide_extends: "extends_by slide_event st (attach_slide so snap idx st)"
  by (simp add: attach_slide_def Let_def add_media_object_def extends_by_def finish_attach_news
           split: option.splits)

lemmas attach_slide_news = extends_news [OF attach_slide_extends]

lemma after_synthesis_extends:
  "extends_by slide_event st (snd (after_synthesis env snaps idx note a c b st))"
  by (simp add: after_synthesis_def Let_def extends_by_def attach_slide_news split: option.splits)

lemmas after_synthesis_news = extends_news [OF after_synthesis_extends]

lemma process_slide_extends:
  "extends_by slide_event st (snd (process_slide env slides snaps idx st))"
proof -
  have "list_all slide_event evs" if "resolve_note (lib env) s = (evs, nt)" for s evs nt
    using resolve_note_events [of "lib env" s] that by simp
  then show ?thesis
    by (auto simp add: process_slide_def Let_def extends_by_def after_synthesis_news
           split: option.splits prod.splits post_exit.splits)
qed

lemmas process_slide_news = extends_news [OF process_slide_extends]

lemma process_slides_extends:
  "extends_by slide_event st (snd (process_slides env slides snaps sel st))"
proof (induction sel arbitrary: st)
  case Nil
  show ?case by (simp add: extends_by_def)
next
  case (Cons idx rest)
  show ?case
  proof (cases "cancel_is_set env st")
    case True
    then show ?thesis by (simp add: extends_by_def)
  next
    case False
    obtain x st1 where p: "process_slide env slides snaps idx (polled st) = (x, st1)"
      by (cases "process_slide env slides snaps idx (polled st)")
    from process_slide_extends [of "polled st" env slides snaps idx] p
    have 1: "extends_by slide_event st st1"
      by (simp add: extends_by_def)
    show ?thesis
    proof (cases x)
      case Next
      with False p 1 Cons.IH [of st1] show ?thesis
        by (auto intro: extends_trans)
    next
      case Fatal
      with False p 1 show ?thesis by simp
    qed
  qed
qed

lemma backup_slide_extends:
  "extends_by backup_event st (snd (backup_slide env idx (snaps, st)))"
  by (simp add: backup_slide_def extends_by_def split: option.splits)

lemma backup_slides_extends:
  "extends_by backup_event (snd ms) (snd (backup_slides env sel ms))"
proof (induction sel arbitrary: ms)
  case Nil
  show ?case by (simp add: extends_by_def)
next
  case (Cons idx rest)
  show ?case
  proof (cases "cancel_is_set env (snd ms)")
    case True
    then show ?thesis by (simp add: extends_by_def)
  next
    case False
    have "extends_by backup_event (snd ms) (snd (backup_slide env idx (fst ms, polled (snd ms))))"
      using backup_slide_extends [of "polled (snd ms)" env idx "fst ms"]
      by (simp add: extends_by_def)
    with False Cons.IH [of "backup_slide env idx (fst ms, polled (snd ms))"] show ?thesis
      by (auto intro: extends_trans)
  qed
qed

section \<open>Lemmas: Order of the phases\<close>



lemma slide_not_summary: "slide_event e \<Longrightarrow> \<not> summary_event e"
  by (cases e) auto

lemma backup_not_summary: "backup_event e \<Longrightarrow> \<not> summary_event e"
  by (cases e) auto

lemma list_all_mono: "list_all P xs \<Longrightarrow> (\<And>x. P x \<Longrightarrow> Q x) \<Longrightarrow> list_all Q xs"
  by (induction xs) auto

lemmas process_slides_news = extends_news [OF process_slides_extends]
lemmas backup_slides_news = extends_news [OF backup_slides_extends]


lemma cancel_emit [simp]: "cancel_is_set env (emit evs st) = cancel_is_set env st"
  by (simp add: cancel_is_set_def emit_def split: option.splits)







section \<open>Lemmas: Captures and the final report\<close>


lemma filter_empty: "list_all (\<lambda>e. \<not> P e) xs \<Longrightarrow> filter P xs = []"
  by (induction xs) auto

lemma run_slides_summary:
  "filter summary_event (trace (run_slides env slides snaps sel st))
     = filter summary_event (trace st)
   \<or> (\<exists>c. filter summary_event (trace (run_slides env slides snaps sel st))
          = filter summary_event (trace st) @ completion_report c (audio_only env))"
proof -
  obtain x st2 where p: "process_slides env slides snaps sel st = (x, st2)"
    by (cases "process_slides env slides snaps sel st")
  from extends_news [OF process_slides_extends [of st env slides snaps sel]] p
  have t: "trace st2 = trace st @ news st st2" and n: "list_all slide_event (news st st2)"
    by simp_all
  have "list_all (\<lambda>e. \<not> summary_event e) (news st st2)"
    by (rule list_all_mono [OF n]) (rule slide_not_summary)
  then have f: "filter summary_event (news st st2) = []"
    by (rule filter_empty)
  show ?thesis
  proof (cases x)
    case Fatal
    with p t f show ?thesis by (simp add: run_slides_def)
  next
    case Next
    have "filter summary_event (completion_report c ao) = completion_report c ao" for c ao
      by (simp add: completion_report_def)
    with Next p t f show ?thesis
      by (auto simp: run_slides_def)
  qed
qed

lemma worker_summary:
  assumes "trace st = []"
  shows "filter summary_event (trace (worker env st)) = []
     \<or> filter summary_event (trace (worker env st)) = completion_report False (audio_only env)
     \<or> filter summary_event (trace (worker env st)) = completion_report True (audio_only env)"
proof (cases "py_strip (api_key env) = [] \<or> py_strip (voice_id env) = [] \<or> \<not> input_is_file env
              \<or> \<not> ffmpeg_available env \<or> prs env = None")
  case True
  with assms show ?thesis
    by (auto simp: worker_def worker_finally_def worker_body_def)
next
  case False
  then obtain slides where slides: "prs env = Some slides" by auto
  define sel where "sel = select_slides (int (length slides)) (slide_range_spec env)"
  define st1 where "st1 = emit [LogLoaded (int (length slides)) sel] st"
  obtain snaps st2 where b: "backup_slides env sel ([], st1) = (snaps, st2)"
    by (cases "backup_slides env sel ([], st1)")
  from extends_news [OF backup_slides_extends [of "([], st1)" env sel]] b
  have t2: "trace st2 = trace st1 @ news st1 st2" and n2: "list_all backup_event (news st1 st2)"
    by simp_all
  have "list_all (\<lambda>e. \<not> summary_event e) (news st1 st2)"
    by (rule list_all_mono [OF n2]) (rule backup_not_summary)
  then have f2: "filter summary_event (trace st2) = []"
    using t2 assms by (simp add: filter_empty st1_def)
  from False slides have body: "worker_body env st =
      (if sel = [] then (False, emit [Show MsgNoSlidesSelected] st1)
       else if audio_only env then (False, run_slides env slides [] sel (emit [Show LogAudioOnlyMode] st1))
       else if com_open_raises env then (False, emit [Show ErrComOpenFailed] st1)
       else (True, run_slides env slides snaps sel (emit [Show LogBackupComplete] st2)))"
    using b by (simp add: worker_body_def Let_def sel_def st1_def)
  from run_slides_summary [of env slides "[]" sel "emit [Show LogAudioOnlyMode] st1"] assms
  have a: "filter summary_event (trace (run_slides env slides [] sel (emit [Show LogAudioOnlyMode] st1))) = []
     \<or> (\<exists>c. filter summary_event (trace (run_slides env slides [] sel (emit [Show LogAudioOnlyMode] st1)))
            = completion_report c (audio_only env))"
    by (simp add: st1_def)
  from run_slides_summary [of env slides snaps sel "emit [Show LogBackupComplete] st2"] f2
  have m: "filter summary_event (trace (run_slides env slides snaps sel (emit [Show LogBackupComplete] st2))) = []
     \<or> (\<exists>c. filter summary_event (trace (run_slides env slides snaps sel (emit [Show LogBackupComplete] st2)))
            = completion_report c (audio_only env))"
    by simp
  have fin: "filter summary_event (trace (worker_finally env (pp, st'))) = filter summary_event (trace st')" for pp st'
    by (simp add: worker_finally_def)
  have "filter summary_event (trace (worker env st)) = []
        \<or> (\<exists>c. filter summary_event (trace (worker env st)) = completion_report c (audio_only env))"
    using a m assms unfolding worker_def body
    by (auto simp: fin st1_def)
  then show ?thesis
    by (metis (full_types))
qed

section \<open>Lemmas: Slides of the host and the manifest\<close>

subsection \<open>Host slides\<close>

lemma slide_at_put: "slide_at xs idx = Some y \<Longrightarrow> slide_at (put_slide idx x xs) idx = Some x"
  by (auto simp: slide_at_def put_slide_def split: if_splits)

lemma put_put [simp]: "put_slide idx a (put_slide idx b xs) = put_slide idx a xs"
  by (simp add: put_slide_def)

lemma clear_all [simp]: "clear_main_sequence None es = []"
  by (induction es) auto

lemma replay_append: "replay es seq = seq @ es"
  by (induction es arbitrary: seq) auto

lemma state_simps [simp]:
  "live (emit evs st) = live st" "saved (emit evs st) = saved st" "files (emit evs st) = files st"
  "polls (emit evs st) = polls st" "processed (emit evs st) = processed st"
  "live (count_processed st) = live st" "saved (count_processed st) = saved st"
  "files (count_processed st) = files st" "processed (count_processed st) = Suc (processed st)"
  "live (polled st) = live st" "saved (polled st) = saved st" "files (polled st) = files st"
  "processed (polled st) = processed st"
  by (simp_all add: emit_def count_processed_def polled_def)

lemma attach_restores:
  assumes "slide_at (live st) idx = Some sl"
    and "\<not> so_delete_vox_raises so" and "\<not> so_insert_raises so"
    and "\<not> so_restore_fails so" and "\<not> so_save_raises so"
  shows "slide_at (live (attach_slide so (Some snap) idx st)) idx
           = Some \<lparr>com_shapes = com_shapes (delete_existing_vox_audio sl)
                      @ [\<lparr>com_id = fresh_shape_id (com_shapes (delete_existing_vox_audio sl)), vox_audio = True\<rparr>],
                    timeline = effects snap
                      @ [audio_effect (fresh_shape_id (com_shapes (delete_existing_vox_audio sl)))]\<rparr>"
    and "saved (attach_slide so (Some snap) idx st) = live (attach_slide so (Some snap) idx st)"
  using assms
  by (simp_all add: attach_slide_def Let_def add_media_object_def finish_attach_def
        restore_slide_animations_def save_slide_def replay_append slide_at_put)

lemma attach_basic:
  assumes "slide_at (live st) idx = Some sl"
    and "\<not> so_delete_vox_raises so" and "so_clear_stops so = None" and "\<not> so_insert_raises so"
    and "\<not> so_basic_setup_raises so" and "\<not> so_save_raises so"
  shows "slide_at (live (attach_slide so None idx st)) idx
           = Some \<lparr>com_shapes = com_shapes (delete_existing_vox_audio sl)
                      @ [\<lparr>com_id = fresh_shape_id (com_shapes (delete_existing_vox_audio sl)), vox_audio = True\<rparr>],
                    timeline = [audio_effect (fresh_shape_id (com_shapes (delete_existing_vox_audio sl)))]\<rparr>"
    and "saved (attach_slide so None idx st) = live (attach_slide so None idx st)"
    and "trace (attach_slide so None idx st) = trace st @
           [Log LogInserting idx, Op DeleteVoxAudio idx, Op ClearTimeline idx, Op InsertAudio idx,
            Op BasicSetup idx, Log LogSnapshotUnavailable idx, OpSave, Log LogSlideComplete idx]"
  using assms
  by (simp_all add: attach_slide_def Let_def add_media_object_def finish_attach_def
        append_media_play_after_previous_def save_slide_def slide_at_put)

lemma backup_failure_none:
  assumes "so_cleanup_raises (slide_env env idx) \<or> so_snapshot_raises (slide_env env idx)"
  shows "snapshot_for (fst (backup_slide env idx (snaps, st))) idx = None"
  using assms by (auto simp: backup_slide_def snapshot_for_def split: option.splits)

lemma after_synthesis_no_snapshot:
  assumes "snapshot_for snaps idx = None" and "\<not> audio_only env"
    and "\<not> so_tmp_write_raises (slide_env env idx)"
  shows "after_synthesis env snaps idx nt a c b st =
           (Next, count_processed (attach_slide (slide_env env idx) None idx
              (emit [OpFfmpeg idx (so_ffmpeg_exit (slide_env env idx)), Log LogConverted idx]
                 (record_manifest env idx nt a c b st))))"
  using assms by (simp add: after_synthesis_def Let_def)

lemma restore_round_trip:
  "restore_slide_animations False sl (snapshot_slide_animations sl) a
     = (True, sl\<lparr>timeline := timeline sl @ [audio_effect a]\<rparr>)"
  by (simp add: restore_slide_animations_def snapshot_slide_animations_def replay_append)

subsection \<open>Manifest\<close>

lemma paths_differ [simp]: "checksum_path env \<noteq> manifest_path env" "manifest_path env \<noteq> checksum_path env"
  by (simp_all add: checksum_path_def)

lemma files_attach [simp]: "files (attach_slide so snap idx st) = files st"
  by (simp add: attach_slide_def Let_def add_media_object_def finish_attach_def
        restore_slide_animations_def save_slide_def split: option.splits)

lemma record_manifest_other:
  "p \<noteq> manifest_path env \<Longrightarrow> p \<noteq> checksum_path env
   \<Longrightarrow> files (record_manifest env idx nt a c b st) p = files st p"
  by (simp add: record_manifest_def split: option.splits)

lemma record_manifest_append:
  assumes "load_manifest (files st (manifest_path env)) = Some es"
    and "\<not> so_manifest_write_raises (slide_env env idx)"
  shows "manifest_entries env (record_manifest env idx nt a c b st) = es @ [new_entry env idx nt a c b]"
  using assms by (simp add: record_manifest_def manifest_entries_def)

lemma record_manifest_checksum:
  assumes "\<not> so_checksum_write_raises (slide_env env idx)"
  shows "files (record_manifest env idx nt a c b st) = files st
         \<or> checksum_verifies env (record_manifest env idx nt a c b st)"
  using assms by (simp add: record_manifest_def checksum_verifies_def split: option.splits)

lemma record_manifest_entries:
  "manifest_entries env (record_manifest env idx nt a c b st) = manifest_entries env st
   \<or> manifest_entries env (record_manifest env idx nt a c b st)
        = manifest_entries env st @ [new_entry env idx nt a c b]"
  by (auto simp: record_manifest_def manifest_entries_def load_manifest_def
           split: option.splits file_content.splits)

lemma entries_cong: "files st' = files st \<Longrightarrow> manifest_entries env st' = manifest_entries env st"
  by (simp add: manifest_entries_def)

lemma verifies_cong: "files st' = files st \<Longrightarrow> checksum_verifies env st' = checksum_verifies env st"
  by (simp add: checksum_verifies_def split: option.splits)

lemma after_synthesis_files:
  "files (snd (after_synthesis env snaps idx nt a c b st)) = files st
   \<or> files (snd (after_synthesis env snaps idx nt a c b st)) = files (record_manifest env idx nt a c b st)"
  by (simp add: after_synthesis_def Let_def split: option.splits)

lemma files_record_emit [simp]:
  "files (record_manifest env idx nt a c b (emit evs st)) = files (record_manifest env idx nt a c b st)"
  by (simp add: record_manifest_def split: option.splits)

lemma process_slide_files:
  "files (snd (process_slide env slides snaps idx st)) = files st
   \<or> (\<exists>nt a c b. files (snd (process_slide env slides snaps idx st))
                    = files (record_manifest env idx nt a c b st))"
proof (cases "slide_at slides idx")
  case None
  then show ?thesis by (simp add: process_slide_def)
next
  case (Some s)
  obtain evs nt where r: "resolve_note (lib env) s = (evs, nt)"
    by (cases "resolve_note (lib env) s")
  show ?thesis
  proof (cases "nt = []")
    case True
    with Some r show ?thesis by (simp add: process_slide_def)
  next
    case False
    show ?thesis
    proof (cases "tts_exit (synthesize (so_post (slide_env env idx)))")
      case (Replied code body)
      show ?thesis
      proof (cases "code = 200")
        case True
        let ?st1 = "emit (evs @ [Log LogGenerating idx,
              Posted idx (tts_attempts (synthesize (so_post (slide_env env idx))))
                (tts_sleeps (synthesize (so_post (slide_env env idx))))]) st"
        from Some r False Replied True
        have "process_slide env slides snaps idx st
              = after_synthesis env snaps idx nt
                  (tts_attempts (synthesize (so_post (slide_env env idx)))) code body ?st1"
          by (simp add: process_slide_def Let_def)
        with after_synthesis_files [of env snaps idx nt
              "tts_attempts (synthesize (so_post (slide_env env idx)))" code body ?st1]
        show ?thesis by auto
      next
        case False
        with Some r \<open>nt \<noteq> []\<close> Replied show ?thesis by (simp add: process_slide_def Let_def)
      qed
    next
      case Raised
      with Some r False show ?thesis by (simp add: process_slide_def Let_def)
    next
      case NoReply
      with Some r False show ?thesis by (simp add: process_slide_def Let_def)
    qed
  qed
qed

section \<open>Lemmas: The manifest over the loop\<close>

subsection \<open>Manifest over the loop\<close>

lemma process_slide_entries:
  "\<exists>new. manifest_entries env (snd (process_slide env slides snaps idx st))
            = manifest_entries env st @ new
         \<and> subseq (map m_slide new) [idx]"
proof -
  from process_slide_files [of env slides snaps idx st]
  show ?thesis
  proof
    assume "files (snd (process_slide env slides snaps idx st)) = files st"
    from entries_cong [OF this, of env]
    have "manifest_entries env (snd (process_slide env slides snaps idx st))
               = manifest_entries env st @ []"
      by simp
    then show ?thesis by (intro exI [of _ "[]"]) simp
  next
    assume "\<exists>nt a c b. files (snd (process_slide env slides snaps idx st))
                    = files (record_manifest env idx nt a c b st)"
    then obtain nt a c b where
      f: "files (snd (process_slide env slides snaps idx st)) = files (record_manifest env idx nt a c b st)"
      by blast
    from record_manifest_entries [of env idx nt a c b st] show ?thesis
    proof
      assume "manifest_entries env (record_manifest env idx nt a c b st) = manifest_entries env st"
      with f have "manifest_entries env (snd (process_slide env slides snaps idx st))
               = manifest_entries env st @ []"
        by (simp add: entries_cong [OF f])
      then show ?thesis by (intro exI [of _ "[]"]) simp
    next
      assume "manifest_entries env (record_manifest env idx nt a c b st)
              = manifest_entries env st @ [new_entry env idx nt a c b]"
      with f have "manifest_entries env (snd (process_slide env slides snaps idx st))
               = manifest_entries env st @ [new_entry env idx nt a c b]"
        by (simp add: entries_cong [OF f])
      then show ?thesis
        by (intro exI [of _ "[new_entry env idx nt a c b]"]) (simp add: new_entry_def)
    qed
  qed
qed

lemma entries_polled [simp]: "manifest_entries env (polled st) = manifest_entries env st"
  by (simp add: manifest_entries_def)

lemma entries_emit [simp]: "manifest_entries env (emit evs st) = manifest_entries env st"
  by (simp add: manifest_entries_def)

lemma process_slides_entries:
  "\<exists>new. manifest_entries env (snd (process_slides env slides snaps sel st))
            = manifest_entries env st @ new
         \<and> subseq (map m_slide new) sel"
proof (induction sel arbitrary: st)
  case Nil
  show ?case by simp
next
  case (Cons idx rest)
  show ?case
  proof (cases "cancel_is_set env st")
    case True
    then show ?thesis by simp
  next
    case False
    obtain x st1 where p: "process_slide env slides snaps idx (polled st) = (x, st1)"
      by (cases "process_slide env slides snaps idx (polled st)")
    from process_slide_entries [of env slides snaps idx "polled st"] p
    obtain new1 where n1: "manifest_entries env st1 = manifest_entries env st @ new1"
      and s1: "subseq (map m_slide new1) [idx]"
      by auto
    show ?thesis
    proof (cases x)
      case Fatal
      have "subseq (map m_slide new1 @ []) ([idx] @ rest)"
        by (rule list_emb_append_mono [OF s1]) simp
      then have "subseq (map m_slide new1) (idx # rest)" by simp
      with False p Fatal n1 show ?thesis by auto
    next
      case Next
      from Cons.IH [of st1] obtain new2 where
        n2: "manifest_entries env (snd (process_slides env slides snaps rest st1))
               = manifest_entries env st1 @ new2"
        and s2: "subseq (map m_slide new2) rest"
        by auto
      from s1 s2 have "subseq (map m_slide new1 @ map m_slide new2) ([idx] @ rest)"
        by (rule list_emb_append_mono)
      with False p Next n1 n2 show ?thesis
        by (intro exI [of _ "new1 @ new2"]) simp
    qed
  qed
qed

lemma process_slide_other:
  assumes "p \<noteq> manifest_path env" and "p \<noteq> checksum_path env"
  shows "files (snd (process_slide env slides snaps idx st)) p = files st p"
  using process_slide_files [of env slides snaps idx st] assms
  by (auto simp: record_manifest_other)

lemma process_slides_other:
  assumes "p \<noteq> manifest_path env" and "p \<noteq> checksum_path env"
  shows "files (snd (process_slides env slides snaps sel st)) p = files st p"
proof (induction sel arbitrary: st)
  case Nil
  show ?case by simp
next
  case (Cons idx rest)
  show ?case
  proof (cases "cancel_is_set env st")
    case True
    then show ?thesis by simp
  next
    case False
    obtain x st1 where q: "process_slide env slides snaps idx (polled st) = (x, st1)"
      by (cases "process_slide env slides snaps idx (polled st)")
    from process_slide_other [OF assms, of slides snaps idx "polled st"] q
    have 1: "files st1 p = files st p" by simp
    show ?thesis
    proof (cases x)
      case Fatal
      with False q 1 show ?thesis by simp
    next
      case Next
      with False q 1 Cons.IH [of st1] show ?thesis by simp
    qed
  qed
qed

lemma backup_slide_files [simp]: "files (snd (backup_slide env idx (snaps, st))) = files st"
  by (simp add: backup_slide_def split: option.splits)

lemma backup_slides_files [simp]: "files (snd (backup_slides env sel ms)) = files (snd ms)"
proof (induction sel arbitrary: ms)
  case Nil
  show ?case by simp
next
  case (Cons idx rest)
  have "files (snd (backup_slide env idx (fst ms, polled (snd ms)))) = files (snd ms)"
    by simp
  with Cons.IH [of "backup_slide env idx (fst ms, polled (snd ms))"] show ?case
    by simp
qed

lemma run_slides_other:
  assumes "p \<noteq> manifest_path env" and "p \<noteq> checksum_path env"
  shows "files (run_slides env slides snaps sel st) p = files st p"
proof -
  obtain x st2 where q: "process_slides env slides snaps sel st = (x, st2)"
    by (cases "process_slides env slides snaps sel st")
  with process_slides_other [OF assms, of slides snaps sel st] have "files st2 p = files st p"
    by simp
  with q show ?thesis
    by (cases x) (simp_all add: run_slides_def)
qed

lemma worker_other:
  assumes "p \<noteq> manifest_path env" and "p \<noteq> checksum_path env"
  shows "files (worker env st) p = files st p"
proof -
  have fin: "files (worker_finally env r) = files (snd r)" for r
    by (cases r) (simp add: worker_finally_def)
  have bk: "files (snd (backup_slides env sel ([], st'))) = files st'" for sel st'
    by simp
  have "files (snd (worker_body env st)) p = files st p"
  proof (cases "prs env")
    case None
    then show ?thesis by (simp add: worker_body_def)
  next
    case (Some slides)
    define sel where "sel = select_slides (int (length slides)) (slide_range_spec env)"
    define st1 where "st1 = emit [LogLoaded (int (length slides)) sel] st"
    obtain snaps st2 where b: "backup_slides env sel ([], st1) = (snaps, st2)"
      by (cases "backup_slides env sel ([], st1)")
    have "files (snd (backup_slides env sel ([], st1))) = files (snd ([] :: (int \<times> snapshot option) list, st1))"
      by (rule backup_slides_files)
    with b have "files st2 = files st" by (simp add: st1_def)
    moreover from Some b have "worker_body env st =
      (if py_strip (api_key env) = [] then (False, emit [Show ErrMissingApiKey] st)
       else if py_strip (voice_id env) = [] then (False, emit [Show ErrMissingVoice] st)
       else if \<not> input_is_file env then (False, emit [Show ErrDeckNotFound] st)
       else if \<not> ffmpeg_available env then (False, emit [Show ErrFfmpegNotFound] st)
       else if sel = [] then (False, emit [Show MsgNoSlidesSelected] st1)
       else if audio_only env then (False, run_slides env slides [] sel (emit [Show LogAudioOnlyMode] st1))
       else if com_open_raises env then (False, emit [Show ErrComOpenFailed] st1)
       else (True, run_slides env slides snaps sel (emit [Show LogBackupComplete] st2)))"
      by (simp add: worker_body_def Let_def sel_def st1_def)
    ultimately show ?thesis
      by (simp add: run_slides_other [OF assms] st1_def)
  qed
  then show ?thesis by (simp add: worker_def fin)
qed

lemma process_slide_checksum:
  assumes "\<not> so_checksum_write_raises (slide_env env idx)"
  shows "files (snd (process_slide env slides snaps idx st)) = files st
         \<or> checksum_verifies env (snd (process_slide env slides snaps idx st))"
proof -
  from process_slide_files [of env slides snaps idx st] show ?thesis
  proof
    assume "files (snd (process_slide env slides snaps idx st)) = files st"
    then show ?thesis ..
  next
    assume "\<exists>nt a c b. files (snd (process_slide env slides snaps idx st))
                    = files (record_manifest env idx nt a c b st)"
    then obtain nt a c b where
      f: "files (snd (process_slide env slides snaps idx st)) = files (record_manifest env idx nt a c b st)"
      by blast
    from record_manifest_checksum [OF assms, of nt a c b st] f show ?thesis
      by (auto simp: verifies_cong [OF f])
  qed
qed

lemma process_slides_checksum:
  assumes "\<forall>idx \<in> set sel. \<not> so_checksum_write_raises (slide_env env idx)"
  shows "files (snd (process_slides env slides snaps sel st)) = files st
         \<or> checksum_verifies env (snd (process_slides env slides snaps sel st))"
  using assms
proof (induction sel arbitrary: st)
  case Nil
  show ?case by simp
next
  case (Cons idx rest)
  show ?case
  proof (cases "cancel_is_set env st")
    case True
    then show ?thesis by simp
  next
    case False
    obtain x st1 where q: "process_slide env slides snaps idx (polled st) = (x, st1)"
      by (cases "process_slide env slides snaps idx (polled st)")
    from Cons.prems have "\<not> so_checksum_write_raises (slide_env env idx)" by simp
    from process_slide_checksum [OF this, of slides snaps "polled st"] q
    have 1: "files st1 = files st \<or> checksum_verifies env st1" by simp
    show ?thesis
    proof (cases x)
      case Fatal
      with False q 1 show ?thesis by simp
    next
      case Next
      from Cons.prems have "\<forall>i \<in> set rest. \<not> so_checksum_write_raises (slide_env env i)" by simp
      from Cons.IH [OF this, of st1]
      have 2: "files (snd (process_slides env slides snaps rest st1)) = files st1
         \<or> checksum_verifies env (snd (process_slides env slides snaps rest st1))" .
      from False q Next have step: "process_slides env slides snaps (idx # rest) st
            = process_slides env slides snaps rest st1"
        by simp
      from 2 show ?thesis
      proof
        assume "checksum_verifies env (snd (process_slides env slides snaps rest st1))"
        then show ?thesis unfolding step ..
      next
        assume same: "files (snd (process_slides env slides snaps rest st1)) = files st1"
        from 1 show ?thesis
        proof
          assume "files st1 = files st"
          with same show ?thesis unfolding step by simp
        next
          assume "checksum_verifies env st1"
          with verifies_cong [OF same, of env] show ?thesis unfolding step by simp
        qed
      qed
    qed
  qed
qed

section \<open>Lemmas: Marker, notes and records\<close>

subsection \<open>The marker\<close>

lemma ci_hash [simp]: "ci_char (CHR ''#'') c = (c = CHR ''#'')"
  by (simp add: ci_char_def)

lemma no_hash_no_match: "c \<noteq> CHR ''#'' \<Longrightarrow> match_marker (c # cs) = None"
  by (simp add: match_marker_def)

lemma sub_marker_prefix:
  "CHR ''#'' \<notin> set pre \<Longrightarrow> sub_marker repl (pre @ s) = pre @ sub_marker repl s"
  by (induction pre) (auto simp: no_hash_no_match)

lemma sub_marker_plain: "CHR ''#'' \<notin> set s \<Longrightarrow> sub_marker repl s = s"
  using sub_marker_prefix [of s repl "[]"] by simp

lemma match_word_append: "match_word p s = Some r \<Longrightarrow> match_word p (s @ t) = Some (r @ t)"
  by (induction p s rule: match_word.induct) (auto split: if_splits)

lemma dropWhile_append_nonempty:
  "dropWhile P xs \<noteq> [] \<Longrightarrow> dropWhile P (xs @ ys) = dropWhile P xs @ ys"
  by (induction xs) auto

lemma match_word_nonempty: "match_word (p # ps) s = Some r \<Longrightarrow> s \<noteq> []"
  by (cases s) auto

lemma match_marker_append:
  assumes "match_marker m = Some r"
  shows "match_marker (m @ post) = Some (r @ post)"
proof -
  from assms obtain s1 s2 where
    1: "match_word ''###'' m = Some s1" and
    2: "match_word ''read'' (dropWhile py_isspace s1) = Some s2" and
    3: "match_word ''slide'' (dropWhile py_isspace s2) = Some r"
    by (auto simp: match_marker_def split: option.splits)
  from 2 have n1: "dropWhile py_isspace s1 \<noteq> []" by (rule match_word_nonempty)
  from 3 have n2: "dropWhile py_isspace s2 \<noteq> []" by (rule match_word_nonempty)
  have a: "match_word ''###'' (m @ post) = Some (s1 @ post)"
    by (rule match_word_append [OF 1])
  have b: "match_word ''read'' (dropWhile py_isspace (s1 @ post)) = Some (s2 @ post)"
    using match_word_append [OF 2, of post] by (simp only: dropWhile_append_nonempty [OF n1])
  have c: "match_word ''slide'' (dropWhile py_isspace (s2 @ post)) = Some (r @ post)"
    using match_word_append [OF 3, of post] by (simp only: dropWhile_append_nonempty [OF n2])
  show ?thesis
    unfolding match_marker_def by (simp only: a b c option.case)
qed

lemma sub_marker_at:
  assumes "match_marker m = Some []"
  shows "sub_marker repl (m @ post) = repl m @ sub_marker repl post"
proof -
  from match_marker_shorter [OF assms] obtain c cs where m: "m = c # cs"
    by (cases m) auto
  from match_marker_append [OF assms, of post] have "match_marker ((c # cs) @ post) = Some post"
    by (simp add: m)
  then have "sub_marker repl ((c # cs) @ post)
      = repl (take (length ((c # cs) @ post) - length post) ((c # cs) @ post)) @ sub_marker repl post"
    by simp
  then show ?thesis by (simp add: m)
qed

lemma sub_marker_single:
  assumes "match_marker m = Some []" and "CHR ''#'' \<notin> set pre" and "CHR ''#'' \<notin> set post"
  shows "sub_marker repl (pre @ m @ post) = pre @ repl m @ post"
  by (simp add: sub_marker_prefix [OF assms(2)] sub_marker_at [OF assms(1)] sub_marker_plain [OF assms(3)])

subsection \<open>Notes\<close>

lemma resolve_replaces:
  assumes "marker_search (py_strip (notes_text s))" and "extract_slide_text s = Some t"
    and "t \<noteq> []" and "CHR 0x5C \<notin> set t"
  shows "snd (resolve_note L s) = sub_marker (\<lambda>_. t) (py_strip (notes_text s))"
  using assms by (simp add: resolve_note_def Let_def py_sub_def)

lemma resolve_removes:
  assumes "marker_search (py_strip (notes_text s))" and "extract_slide_text s = Some []"
  shows "snd (resolve_note L s) = py_strip (sub_marker (\<lambda>_. []) (py_strip (notes_text s)))"
  using assms by (simp add: resolve_note_def Let_def)

lemma extract_order:
  assumes "extract_slide_text s = Some t"
  shows "\<exists>items ordered. collect_text (find_title_id (shapes s)) (shapes s) = Some items
           \<and> t = py_join [CHR 0x0A] (map (\<lambda>item. snd (snd item)) ordered)
           \<and> sorted (map (\<lambda>item. (fst item, fst (snd item))) ordered)
           \<and> set ordered = set items \<and> length ordered = length items"
proof -
  from assms obtain items where c: "collect_text (find_title_id (shapes s)) (shapes s) = Some items"
    and t: "t = py_join [CHR 0x0A] (reading_order items)"
    by (auto simp: extract_slide_text_def)
  let ?o = "sort_key (\<lambda>item. (fst item, fst (snd item))) items"
  have "sorted (map (\<lambda>item. (fst item, fst (snd item))) ?o)" by (rule sorted_sort_key)
  moreover have "set ?o = set items" by simp
  moreover have "length ?o = length items" by simp
  ultimately show ?thesis using c t
    unfolding reading_order_def by blast
qed

lemma skip_no_notes:
  assumes "slide_at slides idx = Some s" and "snd (resolve_note (lib env) s) = []"
  shows "process_slide env slides snaps idx st
         = (Next, count_processed (emit (fst (resolve_note (lib env) s) @ [Log LogSkipNoNotes idx]) st))"
proof -
  obtain evs nt where r: "resolve_note (lib env) s = (evs, nt)"
    by (cases "resolve_note (lib env) s")
  with assms show ?thesis by (simp add: process_slide_def)
qed

subsection \<open>Requests\<close>

lemma synthesize_final:
  assumes "post (Suc 0) = Response c b" and "\<not> (500 \<le> c \<and> c < 600)"
  shows "synthesize post = \<lparr>tts_attempts = 1, tts_sleeps = [], tts_exit = Replied c b\<rparr>"
  using assms by (auto simp: synthesize_def post_loop_0)

lemma api_error_continues:
  assumes "\<not> cancel_is_set env st" and "slide_at slides idx = Some s"
    and "snd (resolve_note (lib env) s) \<noteq> []"
    and "so_post (slide_env env idx) (Suc 0) = Response c b" and "400 \<le> c" and "c < 500"
  shows "process_slides env slides snaps (idx # rest) st
         = process_slides env slides snaps rest
             (count_processed
               (emit [LogApiError idx c]
                 (emit (fst (resolve_note (lib env) s) @ [Log LogGenerating idx, Posted idx 1 []])
                    (polled st))))"
proof -
  from assms(4-6) have "synthesize (so_post (slide_env env idx))
        = \<lparr>tts_attempts = 1, tts_sleeps = [], tts_exit = Replied c b\<rparr>"
    by (intro synthesize_final) simp_all
  moreover obtain evs nt where r: "resolve_note (lib env) s = (evs, nt)"
    by (cases "resolve_note (lib env) s")
  ultimately show ?thesis
    using assms by (simp add: process_slide_def Let_def)
qed

subsection \<open>Records\<close>

lemma process_slide_records:
  assumes "slide_at slides idx = Some s" and "snd (resolve_note (lib env) s) \<noteq> []"
    and "tts_exit (synthesize (so_post (slide_env env idx))) = Replied 200 body"
    and "\<not> so_tmp_write_raises (slide_env env idx)"
    and "load_manifest (files st (manifest_path env)) = Some es"
    and "\<not> so_manifest_write_raises (slide_env env idx)"
  shows "manifest_entries env (snd (process_slide env slides snaps idx st))
         = es @ [new_entry env idx (snd (resolve_note (lib env) s))
                   (tts_attempts (synthesize (so_post (slide_env env idx)))) 200 body]"
    and "\<not> so_checksum_write_raises (slide_env env idx)
         \<Longrightarrow> checksum_verifies env (snd (process_slide env slides snaps idx st))"
proof -
  obtain evs nt where r: "resolve_note (lib env) s = (evs, nt)"
    by (cases "resolve_note (lib env) s")
  with assms show "manifest_entries env (snd (process_slide env slides snaps idx st))
         = es @ [new_entry env idx (snd (resolve_note (lib env) s))
                   (tts_attempts (synthesize (so_post (slide_env env idx)))) 200 body]"
    by (auto simp: process_slide_def Let_def after_synthesis_def manifest_entries_def
          record_manifest_def split: option.splits)
  from r assms show "\<not> so_checksum_write_raises (slide_env env idx)
         \<Longrightarrow> checksum_verifies env (snd (process_slide env slides snaps idx st))"
    by (auto simp: process_slide_def Let_def after_synthesis_def
          checksum_verifies_def record_manifest_def split: option.splits)
qed

lemma process_slide_no_record:
  assumes "slide_at slides idx = Some s"
    and "snd (resolve_note (lib env) s) = []
         \<or> (\<forall>body. tts_exit (synthesize (so_post (slide_env env idx))) \<noteq> Replied 200 body)"
  shows "files (snd (process_slide env slides snaps idx st)) = files st"
proof -
  obtain evs nt where r: "resolve_note (lib env) s = (evs, nt)"
    by (cases "resolve_note (lib env) s")
  with assms show ?thesis
    by (auto simp: process_slide_def Let_def split: post_exit.splits)
qed

section \<open>The claims\<close>

subsection \<open>C1: the timeline at the end of a run\<close>

text \<open>
  Claim C1, as the code has it. When the snapshot of a slide was captured and the host calls of
  its attach sequence succeed, the sequence ends with the captured effects replayed in their
  order, followed by the effect of the new audio shape, and the document is saved right after.
  When the backup of the slide had failed, no snapshot exists: the sequence clears the timeline,
  adds only the audio effect and saves. And whenever the worker holds the deck, its final save
  runs on the way out, whatever state the slides are in.
\<close>

theorem attach_sequence_and_final_save:
  "(slide_at (live st) idx = Some sl \<and> \<not> so_delete_vox_raises so \<and> \<not> so_insert_raises so
      \<and> \<not> so_restore_fails so \<and> \<not> so_save_raises so \<longrightarrow>
      slide_at (live (attach_slide so (Some snap) idx st)) idx
        = Some \<lparr>com_shapes = com_shapes (delete_existing_vox_audio sl)
                   @ [\<lparr>com_id = fresh_shape_id (com_shapes (delete_existing_vox_audio sl)),
                       vox_audio = True\<rparr>],
                 timeline = effects snap
                   @ [audio_effect (fresh_shape_id (com_shapes (delete_existing_vox_audio sl)))]\<rparr>
      \<and> saved (attach_slide so (Some snap) idx st) = live (attach_slide so (Some snap) idx st))
   \<and> (slide_at (live st) idx = Some sl \<and> \<not> so_delete_vox_raises so \<and> so_clear_stops so = None
      \<and> \<not> so_insert_raises so \<and> \<not> so_basic_setup_raises so \<and> \<not> so_save_raises so \<longrightarrow>
      slide_at (live (attach_slide so None idx st)) idx
        = Some \<lparr>com_shapes = com_shapes (delete_existing_vox_audio sl)
                   @ [\<lparr>com_id = fresh_shape_id (com_shapes (delete_existing_vox_audio sl)),
                       vox_audio = True\<rparr>],
                 timeline = [audio_effect (fresh_shape_id (com_shapes (delete_existing_vox_audio sl)))]\<rparr>
      \<and> saved (attach_slide so None idx st) = live (attach_slide so None idx st))
   \<and> (\<not> audio_only env \<and> fst (worker_body env st0) \<and> \<not> final_save_raises env \<longrightarrow>
      saved (worker env st0) = live (worker env st0))"
proof -
  have "saved (worker env st0) = live (worker env st0)"
    if "\<not> audio_only env" "fst (worker_body env st0)" "\<not> final_save_raises env"
  proof -
    obtain pp st1 where b: "worker_body env st0 = (pp, st1)"
      by (cases "worker_body env st0")
    with that show ?thesis
      by (simp add: worker_def worker_finally_def)
  qed
  then show ?thesis
    using attach_restores [of st idx sl so snap] attach_basic(1,2) [of st idx sl so]
    by blast
qed

theorem attach_sequence_and_final_save_witness:
  "slide_at (live demo_state) 1 = Some (hd demo_deck)
   \<and> \<not> so_delete_vox_raises ok_oracle \<and> so_clear_stops ok_oracle = None
   \<and> \<not> so_insert_raises ok_oracle \<and> \<not> so_restore_fails ok_oracle
   \<and> \<not> so_basic_setup_raises ok_oracle \<and> \<not> so_save_raises ok_oracle
   \<and> \<not> audio_only demo_env \<and> fst (worker_body demo_env demo_state)
   \<and> \<not> final_save_raises demo_env
   \<and> map timeline (live (attach_slide ok_oracle (Some (snapshot_slide_animations (hd demo_deck))) 1 demo_state))
       = [[fade, audio_effect 2], []]
   \<and> saved (attach_slide ok_oracle (Some (snapshot_slide_animations (hd demo_deck))) 1 demo_state)
       = live (attach_slide ok_oracle (Some (snapshot_slide_animations (hd demo_deck))) 1 demo_state)
   \<and> map timeline (live (attach_slide ok_oracle None 1 demo_state)) = [[audio_effect 2], []]
   \<and> saved (attach_slide ok_oracle None 1 demo_state) = live (attach_slide ok_oracle None 1 demo_state)
   \<and> saved (worker demo_env demo_state) = live (worker demo_env demo_state)"
proof -
  have h: "slide_at (live demo_state) 1 = Some (hd demo_deck)
     \<and> \<not> so_delete_vox_raises ok_oracle \<and> so_clear_stops ok_oracle = None
     \<and> \<not> so_insert_raises ok_oracle \<and> \<not> so_restore_fails ok_oracle
     \<and> \<not> so_basic_setup_raises ok_oracle \<and> \<not> so_save_raises ok_oracle
     \<and> \<not> audio_only demo_env \<and> fst (worker_body demo_env demo_state)
     \<and> \<not> final_save_raises demo_env"
    by code_simp
  have v: "map timeline (live (attach_slide ok_oracle (Some (snapshot_slide_animations (hd demo_deck))) 1 demo_state))
       = [[fade, audio_effect 2], []]
     \<and> map timeline (live (attach_slide ok_oracle None 1 demo_state)) = [[audio_effect 2], []]"
    by code_simp
  from h v
    attach_sequence_and_final_save [of demo_state 1 "hd demo_deck" ok_oracle
      "snapshot_slide_animations (hd demo_deck)" demo_env demo_state]
  show ?thesis by blast
qed

text \<open>
  The claim as the specification words it fails when the backup of a slide fails. Slide 1 starts
  with one effect; its backup raises, so no snapshot exists; the run still clears the timeline,
  never restores it, and saves the document in that state.
\<close>

theorem backup_failed_run_counterexample:
  "map timeline (live demo_state) = [[fade], []]
   \<and> snapshot_for
        (fst (backup_slides (demo_env\<lparr>slide_env := \<lambda>_. ok_oracle\<lparr>so_cleanup_raises := True\<rparr>\<rparr>)
                [1, 2] ([], demo_state))) 1 = None
   \<and> Op ClearTimeline 1
        \<in> set (trace (worker (demo_env\<lparr>slide_env := \<lambda>_. ok_oracle\<lparr>so_cleanup_raises := True\<rparr>\<rparr>) demo_state))
   \<and> Op Restore 1
        \<notin> set (trace (worker (demo_env\<lparr>slide_env := \<lambda>_. ok_oracle\<lparr>so_cleanup_raises := True\<rparr>\<rparr>) demo_state))
   \<and> map timeline (live (worker (demo_env\<lparr>slide_env := \<lambda>_. ok_oracle\<lparr>so_cleanup_raises := True\<rparr>\<rparr>) demo_state))
        = [[audio_effect 2], []]
   \<and> map timeline (saved (worker (demo_env\<lparr>slide_env := \<lambda>_. ok_oracle\<lparr>so_cleanup_raises := True\<rparr>\<rparr>) demo_state))
        = [[audio_effect 2], []]"
  by code_simp

subsection \<open>C2: what is reported at the end of a run\<close>

text \<open>
  Claim C2, as the code has it. What the user is told at the end of a run is one of three fixed
  reports: nothing (the run was abandoned before or inside the loop), the completion message,
  or the cancellation message. None of them carries a count: the worker keeps one counter of
  processed slides and never reports it, and it keeps no count of skipped or failed slides.
  When the loop ends without an exception, the report is chosen by the cancel event and the
  audio-only flag alone.
\<close>

theorem completion_report_only:
  "(trace st = [] \<longrightarrow>
      filter summary_event (trace (worker env st)) = []
      \<or> filter summary_event (trace (worker env st)) = completion_report False (audio_only env)
      \<or> filter summary_event (trace (worker env st)) = completion_report True (audio_only env))
   \<and> (fst (process_slides env slides snaps sel st) = Next \<longrightarrow>
      trace (run_slides env slides snaps sel st)
        = trace (snd (process_slides env slides snaps sel st))
          @ completion_report (cancel_is_set env (snd (process_slides env slides snaps sel st)))
              (audio_only env))"
proof -
  obtain x st2 where p: "process_slides env slides snaps sel st = (x, st2)"
    by (cases "process_slides env slides snaps sel st")
  then have "fst (process_slides env slides snaps sel st) = Next \<longrightarrow>
      trace (run_slides env slides snaps sel st)
        = trace (snd (process_slides env slides snaps sel st))
          @ completion_report (cancel_is_set env (snd (process_slides env slides snaps sel st)))
              (audio_only env)"
    by (simp add: run_slides_def)
  with worker_summary [of st env] show ?thesis by blast
qed

theorem completion_report_only_witness:
  "trace demo_state = []
   \<and> filter summary_event (trace (worker demo_env demo_state)) = completion_report False False
   \<and> audio_only demo_env = False
   \<and> fst (process_slides demo_env demo_slides [] [1, 2] demo_state) = Next
   \<and> trace (run_slides demo_env demo_slides [] [1, 2] demo_state)
       = trace (snd (process_slides demo_env demo_slides [] [1, 2] demo_state))
         @ completion_report (cancel_is_set demo_env (snd (process_slides demo_env demo_slides [] [1, 2] demo_state)))
             (audio_only demo_env)"
proof -
  have h: "trace demo_state = []
     \<and> filter summary_event (trace (worker demo_env demo_state)) = completion_report False False
     \<and> audio_only demo_env = False
     \<and> fst (process_slides demo_env demo_slides [] [1, 2] demo_state) = Next"
    by code_simp
  from h completion_report_only [of demo_state demo_env demo_slides "[]" "[1, 2]"]
  show ?thesis by blast
qed

text \<open>
  The claim as the specification words it fails: two cancelled audio-only runs, one that
  processed a slide and one that processed none, end with the same report, the bare
  cancellation message.
\<close>

theorem summary_without_counts_counterexample:
  "processed (worker (demo_env\<lparr>audio_only := True, cancel_after := Some 1\<rparr>) demo_state) = 1
   \<and> processed (worker (demo_env\<lparr>audio_only := True, cancel_after := Some 0\<rparr>) demo_state) = 0
   \<and> filter summary_event
        (trace (worker (demo_env\<lparr>audio_only := True, cancel_after := Some 1\<rparr>) demo_state))
        = [Show MsgCancelled]
   \<and> filter summary_event
        (trace (worker (demo_env\<lparr>audio_only := True, cancel_after := Some 0\<rparr>) demo_state))
        = [Show MsgCancelled]"
  by code_simp

subsection \<open>C3: the exit status of the transcoder\<close>

text \<open>
  Claim C3 at a failing input. The transcoder exits with status 1 on slide 1 of an audio-only
  run. The worker drops the status: it logs the conversion and the saved file as for a
  success, and counts no failure; \<open>normalize_audio\<close>, the helper that the worker does not
  call, raises on the same status.
\<close>

theorem transcoder_exit_status_dropped:
  "trace (worker (demo_env\<lparr>audio_only := True, slide_env := \<lambda>_. ok_oracle\<lparr>so_ffmpeg_exit := 1\<rparr>\<rparr>) demo_state)
     = [LogLoaded 2 [1, 2], Show LogAudioOnlyMode, Show LogMarkerDetected, LogExtracted 3,
        Log LogGenerating 1, Posted 1 1 [], OpFfmpeg 1 1, Log LogConverted 1,
        Log LogAudioOnlySaved 1, Log LogSkipNoNotes 2,
        Show LogDoneAudioOnly, Show MsgCompleteAudioOnly, Show LogSessionSaved]
   \<and> normalize_audio 1 ''slide01.wav'' = None"
  by code_simp

subsection \<open>C4: the retry policy of the synthesis request\<close>

text \<open>
  Claim C4. For every behaviour of the transport, the loop calls \<open>sess.post\<close> at least once
  and at most three times; every call but the last was answered by a 5xx reply or a transport
  error; the sleeps between the calls are 0.75 s and then twice that; a 4xx reply is the last
  call, and the loop is left with it. When the first reply for a slide is a 4xx, the slide is
  logged as an API error and counted, and the loop goes on with the next slide. (A call of
  \<open>sess.post\<close> is one attempt; what the transport adapter does inside a call is not modelled.)
\<close>

theorem synthesis_retry_policy:
  "1 \<le> tts_attempts (synthesize post) \<and> tts_attempts (synthesize post) \<le> NET_MAX_ATTEMPTS
   \<and> NET_MAX_ATTEMPTS = 3
   \<and> tts_sleeps (synthesize post)
       = map (\<lambda>k. (3 / 4) * 2 ^ k) [0..<tts_attempts (synthesize post) - 1]
   \<and> (\<forall>k. 1 \<le> k \<and> k < tts_attempts (synthesize post) \<longrightarrow> retryable (post k))
   \<and> (\<forall>k c b. 1 \<le> k \<and> k \<le> tts_attempts (synthesize post) \<and> post k = Response c b
         \<and> 400 \<le> c \<and> c < 500 \<longrightarrow>
         tts_attempts (synthesize post) = k \<and> tts_exit (synthesize post) = Replied c b)
   \<and> (\<not> cancel_is_set env st \<and> slide_at slides idx = Some s
       \<and> snd (resolve_note (lib env) s) \<noteq> []
       \<and> so_post (slide_env env idx) (Suc 0) = Response c' b' \<and> 400 \<le> c' \<and> c' < 500 \<longrightarrow>
       process_slides env slides snaps (idx # rest) st
         = process_slides env slides snaps rest
             (count_processed
               (emit [LogApiError idx c']
                 (emit (fst (resolve_note (lib env) s) @ [Log LogGenerating idx, Posted idx 1 []])
                    (polled st)))))"
proof -
  have 1: "1 \<le> tts_attempts (synthesize post) \<and> tts_attempts (synthesize post) \<le> NET_MAX_ATTEMPTS
      \<and> NET_MAX_ATTEMPTS = 3"
    using synthesize_attempts [of post] by (simp add: NET_MAX_ATTEMPTS_def)
  have 2: "tts_sleeps (synthesize post)
       = map (\<lambda>k. (3 / 4) * 2 ^ k) [0..<tts_attempts (synthesize post) - 1]"
    by (rule synthesize_sleeps)
  have 3: "\<forall>k. 1 \<le> k \<and> k < tts_attempts (synthesize post) \<longrightarrow> retryable (post k)"
    using synthesize_retry_only [of _ post] by blast
  have "tts_attempts (synthesize post) = k \<and> tts_exit (synthesize post) = Replied c b"
    if "1 \<le> k" "k \<le> tts_attempts (synthesize post)" "post k = Response c b" "400 \<le> c" "c < 500"
    for k c b
    using that by (intro synthesize_stops) simp_all
  then have 4: "\<forall>k c b. 1 \<le> k \<and> k \<le> tts_attempts (synthesize post) \<and> post k = Response c b
         \<and> 400 \<le> c \<and> c < 500 \<longrightarrow>
         tts_attempts (synthesize post) = k \<and> tts_exit (synthesize post) = Replied c b"
    by blast
  have 5: "\<not> cancel_is_set env st \<and> slide_at slides idx = Some s
       \<and> snd (resolve_note (lib env) s) \<noteq> []
       \<and> so_post (slide_env env idx) (Suc 0) = Response c' b' \<and> 400 \<le> c' \<and> c' < 500 \<longrightarrow>
       process_slides env slides snaps (idx # rest) st
         = process_slides env slides snaps rest
             (count_processed
               (emit [LogApiError idx c']
                 (emit (fst (resolve_note (lib env) s) @ [Log LogGenerating idx, Posted idx 1 []])
                    (polled st))))"
    using api_error_continues [of env st slides idx s c' b' snaps rest] by blast
  from 1 2 3 4 5 show ?thesis by blast
qed

theorem synthesis_retry_policy_witness:
  "synthesize (\<lambda>_. Response 500 [])
     = \<lparr>tts_attempts = 3, tts_sleeps = [3 / 4, 3 / 2], tts_exit = Replied 500 []\<rparr>
   \<and> retryable (Response 500 [])
   \<and> synthesize (\<lambda>_. Response 400 [])
     = \<lparr>tts_attempts = 1, tts_sleeps = [], tts_exit = Replied 400 []\<rparr>
   \<and> \<not> cancel_is_set (demo_env\<lparr>slide_env := \<lambda>_. ok_oracle\<lparr>so_post := \<lambda>_. Response 400 []\<rparr>\<rparr>) demo_state
   \<and> slide_at demo_slides 1 = Some (hd demo_slides)
   \<and> snd (resolve_note (lib (demo_env\<lparr>slide_env := \<lambda>_. ok_oracle\<lparr>so_post := \<lambda>_. Response 400 []\<rparr>\<rparr>))
           (hd demo_slides)) \<noteq> []
   \<and> process_slides (demo_env\<lparr>slide_env := \<lambda>_. ok_oracle\<lparr>so_post := \<lambda>_. Response 400 []\<rparr>\<rparr>)
        demo_slides [] [1, 2] demo_state
     = process_slides (demo_env\<lparr>slide_env := \<lambda>_. ok_oracle\<lparr>so_post := \<lambda>_. Response 400 []\<rparr>\<rparr>)
        demo_slides [] [2]
        (count_processed
          (emit [LogApiError 1 400]
            (emit (fst (resolve_note (lib (demo_env\<lparr>slide_env := \<lambda>_. ok_oracle\<lparr>so_post := \<lambda>_. Response 400 []\<rparr>\<rparr>))
                          (hd demo_slides))
                   @ [Log LogGenerating 1, Posted 1 1 []])
               (polled demo_state))))"
proof -
  let ?env = "demo_env\<lparr>slide_env := \<lambda>_. ok_oracle\<lparr>so_post := \<lambda>_. Response 400 []\<rparr>\<rparr>"
  have h: "synthesize (\<lambda>_. Response 500 [])
       = \<lparr>tts_attempts = 3, tts_sleeps = [3 / 4, 3 / 2], tts_exit = Replied 500 []\<rparr>
     \<and> retryable (Response 500 [])
     \<and> synthesize (\<lambda>_. Response 400 [])
       = \<lparr>tts_attempts = 1, tts_sleeps = [], tts_exit = Replied 400 []\<rparr>
     \<and> \<not> cancel_is_set ?env demo_state
     \<and> slide_at demo_slides 1 = Some (hd demo_slides)
     \<and> snd (resolve_note (lib ?env) (hd demo_slides)) \<noteq> []
     \<and> so_post (slide_env ?env 1) (Suc 0) = Response 400 []"
    by code_simp
  from h
    synthesis_retry_policy [of "\<lambda>_. Response 400 []" ?env demo_state demo_slides 1
      "hd demo_slides" 400 "[]" "[]" "[2]"]
  show ?thesis by simp
qed

subsection \<open>C5: the manifest of a session\<close>

text \<open>
  Claim C5, as the code has it. A slide whose synthesis is answered with status 200 gets one
  record, appended to the list that the manifest file of the session holds, and the checksum
  file is rewritten to the digest of the new content. A slide without notes, or whose last
  reply is not a 200, gets no record and leaves the files as they are. Over the loop the new
  records follow the existing ones, in processing order. A run writes no file but the manifest
  of its own deck and time stamp and the checksum next to it; and when no checksum write fails,
  the loop leaves either the files as they were or a checksum that verifies.
\<close>

theorem manifest_records:
  "(slide_at slides idx = Some s \<and> snd (resolve_note (lib env) s) \<noteq> []
      \<and> tts_exit (synthesize (so_post (slide_env env idx))) = Replied 200 body
      \<and> \<not> so_tmp_write_raises (slide_env env idx)
      \<and> load_manifest (files st (manifest_path env)) = Some es
      \<and> \<not> so_manifest_write_raises (slide_env env idx)
      \<and> \<not> so_checksum_write_raises (slide_env env idx) \<longrightarrow>
      manifest_entries env (snd (process_slide env slides snaps idx st))
        = es @ [new_entry env idx (snd (resolve_note (lib env) s))
                  (tts_attempts (synthesize (so_post (slide_env env idx)))) 200 body]
      \<and> checksum_verifies env (snd (process_slide env slides snaps idx st)))
   \<and> (slide_at slides idx = Some s
      \<and> (snd (resolve_note (lib env) s) = []
          \<or> (\<forall>body. tts_exit (synthesize (so_post (slide_env env idx))) \<noteq> Replied 200 body)) \<longrightarrow>
      files (snd (process_slide env slides snaps idx st)) = files st)
   \<and> (\<exists>new. manifest_entries env (snd (process_slides env slides snaps sel st))
               = manifest_entries env st @ new
            \<and> subseq (map m_slide new) sel)
   \<and> (p \<noteq> manifest_path env \<and> p \<noteq> checksum_path env \<longrightarrow> files (worker env st) p = files st p)
   \<and> ((\<forall>i \<in> set sel. \<not> so_checksum_write_raises (slide_env env i)) \<longrightarrow>
      files (snd (process_slides env slides snaps sel st)) = files st
      \<or> checksum_verifies env (snd (process_slides env slides snaps sel st)))"
  using process_slide_records [of slides idx s env body st es snaps]
    process_slide_no_record [of slides idx s env snaps st]
    process_slides_entries [of env slides snaps sel st]
    worker_other [of p env st]
    process_slides_checksum [of sel env slides snaps st]
  by blast

theorem manifest_records_witness:
  "slide_at demo_slides 1 = Some (hd demo_slides)
   \<and> snd (resolve_note (lib demo_env) (hd demo_slides)) \<noteq> []
   \<and> tts_exit (synthesize (so_post (slide_env demo_env 1))) = Replied 200 ''RIFF''
   \<and> load_manifest (files demo_state (manifest_path demo_env)) = Some []
   \<and> manifest_entries demo_env (snd (process_slide demo_env demo_slides [] 1 demo_state))
       = [new_entry demo_env 1 (snd (resolve_note (lib demo_env) (hd demo_slides)))
            (tts_attempts (synthesize (so_post (slide_env demo_env 1)))) 200 ''RIFF'']
   \<and> checksum_verifies demo_env (snd (process_slide demo_env demo_slides [] 1 demo_state))
   \<and> slide_at demo_slides 2 = Some (demo_slides ! 1)
   \<and> snd (resolve_note (lib demo_env) (demo_slides ! 1)) = []
   \<and> files (snd (process_slide demo_env demo_slides [] 2 demo_state)) = files demo_state
   \<and> map m_slide (manifest_entries demo_env (snd (process_slides demo_env demo_slides [] [1, 2] demo_state))) = [1]
   \<and> ''other.json'' \<noteq> manifest_path demo_env \<and> ''other.json'' \<noteq> checksum_path demo_env
   \<and> files (worker demo_env demo_state) ''other.json'' = files demo_state ''other.json''"
proof -
  have h: "slide_at demo_slides 1 = Some (hd demo_slides)
     \<and> snd (resolve_note (lib demo_env) (hd demo_slides)) \<noteq> []
     \<and> tts_exit (synthesize (so_post (slide_env demo_env 1))) = Replied 200 ''RIFF''
     \<and> \<not> so_tmp_write_raises (slide_env demo_env 1)
     \<and> load_manifest (files demo_state (manifest_path demo_env)) = Some []
     \<and> \<not> so_manifest_write_raises (slide_env demo_env 1)
     \<and> \<not> so_checksum_write_raises (slide_env demo_env 1)"
    by code_simp
  have g: "slide_at demo_slides 2 = Some (demo_slides ! 1)
     \<and> snd (resolve_note (lib demo_env) (demo_slides ! 1)) = []
     \<and> map m_slide (manifest_entries demo_env (snd (process_slides demo_env demo_slides [] [1, 2] demo_state))) = [1]
     \<and> ''other.json'' \<noteq> manifest_path demo_env \<and> ''other.json'' \<noteq> checksum_path demo_env"
    by code_simp
  from h
    manifest_records [of demo_slides 1 "hd demo_slides" demo_env "''RIFF''" demo_state "[]" "[]"
      "[1, 2]" "''other.json''"]
  have 1: "manifest_entries demo_env (snd (process_slide demo_env demo_slides [] 1 demo_state))
       = [new_entry demo_env 1 (snd (resolve_note (lib demo_env) (hd demo_slides)))
            (tts_attempts (synthesize (so_post (slide_env demo_env 1)))) 200 ''RIFF'']
     \<and> checksum_verifies demo_env (snd (process_slide demo_env demo_slides [] 1 demo_state))"
    by simp
  from g
    manifest_records [of demo_slides 2 "demo_slides ! 1" demo_env "''RIFF''" demo_state "[]" "[]"
      "[1, 2]" "''other.json''"]
  have 2: "files (snd (process_slide demo_env demo_slides [] 2 demo_state)) = files demo_state
     \<and> files (worker demo_env demo_state) ''other.json'' = files demo_state ''other.json''"
    by blast
  from h g 1 2 show ?thesis by blast
qed

text \<open>
  The claim as the specification words it fails for a slide that is processed without a
  synthesis: the run counts two processed slides, and the manifest holds one record.
\<close>

theorem record_per_processed_slide_counterexample:
  "processed (worker demo_env demo_state) = 2
   \<and> map m_slide (manifest_entries demo_env (worker demo_env demo_state)) = [1]"
  by code_simp

subsection \<open>C7: the notes of a slide\<close>

text \<open>
  Claim C7, as the code has it. When the notes contain the marker and the extraction gives a
  non-empty text without a backslash, every occurrence of the marker is replaced by that text:
  the texts of the shapes, stripped, in the order of their positions (top, then left), joined by
  newline characters. For notes with one marker and no other \<open>#\<close>, the result is the notes
  with the marker replaced. When the extraction gives nothing, every occurrence is deleted and
  the result is stripped. A slide whose final notes are empty is logged as skipped, counted as
  processed, and the loop goes on.
\<close>

theorem notes_resolution:
  "(marker_search (py_strip (notes_text s)) \<and> extract_slide_text s = Some t \<and> t \<noteq> []
      \<and> CHR 0x5C \<notin> set t \<longrightarrow>
      snd (resolve_note L s) = sub_marker (\<lambda>_. t) (py_strip (notes_text s)))
   \<and> (extract_slide_text s = Some t \<longrightarrow>
      (\<exists>items ordered. collect_text (find_title_id (shapes s)) (shapes s) = Some items
         \<and> t = py_join [CHR 0x0A] (map (\<lambda>item. snd (snd item)) ordered)
         \<and> sorted (map (\<lambda>item. (fst item, fst (snd item))) ordered)
         \<and> set ordered = set items \<and> length ordered = length items))
   \<and> (match_marker m = Some [] \<and> CHR ''#'' \<notin> set pre \<and> CHR ''#'' \<notin> set post \<longrightarrow>
      sub_marker repl (pre @ m @ post) = pre @ repl m @ post)
   \<and> (marker_search (py_strip (notes_text s)) \<and> extract_slide_text s = Some [] \<longrightarrow>
      snd (resolve_note L s) = py_strip (sub_marker (\<lambda>_. []) (py_strip (notes_text s))))
   \<and> (slide_at slides idx = Some s' \<and> snd (resolve_note (lib env) s') = [] \<longrightarrow>
      process_slide env slides snaps idx st
        = (Next, count_processed
                   (emit (fst (resolve_note (lib env) s') @ [Log LogSkipNoNotes idx]) st)))"
  using resolve_replaces [of s t L] extract_order [of s t] sub_marker_single [of m pre post repl]
    resolve_removes [of s L] skip_no_notes [of slides idx s' env snaps st]
  by blast

theorem notes_resolution_witness:
  "marker_search (py_strip (notes_text (hd demo_slides)))
   \<and> extract_slide_text (hd demo_slides) = Some [CHR ''A'', CHR 0x0A, CHR ''B'']
   \<and> CHR 0x5C \<notin> set [CHR ''A'', CHR 0x0A, CHR ''B'']
   \<and> snd (resolve_note demo_lib (hd demo_slides))
       = sub_marker (\<lambda>_. [CHR ''A'', CHR 0x0A, CHR ''B'']) (py_strip (notes_text (hd demo_slides)))
   \<and> match_marker ''### Read Slide'' = Some []
   \<and> CHR ''#'' \<notin> set ''Hello '' \<and> CHR ''#'' \<notin> set ''!''
   \<and> sub_marker (\<lambda>_. ''text'') (''Hello '' @ ''### Read Slide'' @ ''!'') = ''Hello '' @ ''text'' @ ''!''
   \<and> marker_search (py_strip (notes_text \<lparr>notes_text = '' ###read slide '', shapes = []\<rparr>))
   \<and> extract_slide_text \<lparr>notes_text = '' ###read slide '', shapes = []\<rparr> = Some []
   \<and> snd (resolve_note demo_lib \<lparr>notes_text = '' ###read slide '', shapes = []\<rparr>) = []
   \<and> slide_at demo_slides 2 = Some (demo_slides ! 1)
   \<and> snd (resolve_note (lib demo_env) (demo_slides ! 1)) = []
   \<and> process_slide demo_env demo_slides [] 2 demo_state
       = (Next, count_processed
                  (emit (fst (resolve_note (lib demo_env) (demo_slides ! 1)) @ [Log LogSkipNoNotes 2])
                     demo_state))"
proof -
  let ?bare = "\<lparr>notes_text = '' ###read slide '', shapes = []\<rparr>"
  have h: "marker_search (py_strip (notes_text (hd demo_slides)))
     \<and> extract_slide_text (hd demo_slides) = Some [CHR ''A'', CHR 0x0A, CHR ''B'']
     \<and> [CHR ''A'', CHR 0x0A, CHR ''B''] \<noteq> []
     \<and> CHR 0x5C \<notin> set [CHR ''A'', CHR 0x0A, CHR ''B'']
     \<and> match_marker ''### Read Slide'' = Some []
     \<and> CHR ''#'' \<notin> set ''Hello '' \<and> CHR ''#'' \<notin> set ''!''"
    by code_simp
  have g: "marker_search (py_strip (notes_text ?bare))
     \<and> extract_slide_text ?bare = Some []
     \<and> py_strip (sub_marker (\<lambda>_. []) (py_strip (notes_text ?bare))) = []
     \<and> slide_at demo_slides 2 = Some (demo_slides ! 1)
     \<and> snd (resolve_note (lib demo_env) (demo_slides ! 1)) = []"
    by code_simp
  from h
    notes_resolution [of "hd demo_slides" "[CHR ''A'', CHR 0x0A, CHR ''B'']" demo_lib
      "''### Read Slide''" "''Hello ''" "''!''" "\<lambda>_. ''text''" demo_slides 2 "demo_slides ! 1"
      demo_env "[]" demo_state]
  have 1: "snd (resolve_note demo_lib (hd demo_slides))
       = sub_marker (\<lambda>_. [CHR ''A'', CHR 0x0A, CHR ''B'']) (py_strip (notes_text (hd demo_slides)))
     \<and> sub_marker (\<lambda>_. ''text'') (''Hello '' @ ''### Read Slide'' @ ''!'') = ''Hello '' @ ''text'' @ ''!''"
    by blast
  from g
    notes_resolution [of ?bare "[]" demo_lib
      "''### Read Slide''" "''Hello ''" "''!''" "\<lambda>_. ''text''" demo_slides 2 "demo_slides ! 1"
      demo_env "[]" demo_state]
  have 2: "snd (resolve_note demo_lib ?bare) = []
     \<and> process_slide demo_env demo_slides [] 2 demo_state
       = (Next, count_processed
                  (emit (fst (resolve_note (lib demo_env) (demo_slides ! 1)) @ [Log LogSkipNoNotes 2])
                     demo_state))"
    by simp
  from h g 1 2 show ?thesis by blast
qed

text \<open>
  The claim as the specification words it fails on a slide with two text boxes: the marker is
  not replaced by the concatenation of the two texts, but by the texts with a newline between
  them.
\<close>

theorem join_not_concatenation_counterexample:
  "collect_text (find_title_id (shapes (hd demo_slides))) (shapes (hd demo_slides))
     = Some [(5, 0, ''B''), (1, 0, ''A'')]
   \<and> reading_order [(5, 0, ''B''), (1, 0, ''A'')] = [''A'', ''B'']
   \<and> concat [''A'', ''B''] = ''AB''
   \<and> notes_text (hd demo_slides) = ''Hello ### Read Slide''
   \<and> snd (resolve_note demo_lib (hd demo_slides)) = ''Hello A'' @ [CHR 0x0A] @ ''B''
   \<and> snd (resolve_note demo_lib (hd demo_slides)) \<noteq> ''Hello AB''"
  by code_simp

subsection \<open>C8: snapshots come before the attach sequence\<close>



subsection \<open>C9: the round trip of snapshot and restore\<close>

text \<open>
  Claim C9. On a slide with \<open>n\<close> effects, none of an unsafe category, a restore from the
  slide's own snapshot that the host lets finish reports success and leaves \<open>n + 1\<close> effects:
  the \<open>n\<close> captured ones in their order, and the effect of the new audio shape last.
\<close>

theorem restore_round_trip_effects:
  "\<not> has_unsafe (snapshot_slide_animations sl) \<and> length (timeline sl) = n \<longrightarrow>
     fst (restore_slide_animations False sl (snapshot_slide_animations sl) audio_shape)
     \<and> length (timeline (snd (restore_slide_animations False sl (snapshot_slide_animations sl) audio_shape)))
         = n + 1
     \<and> take n (timeline (snd (restore_slide_animations False sl (snapshot_slide_animations sl) audio_shape)))
         = timeline sl
     \<and> last (timeline (snd (restore_slide_animations False sl (snapshot_slide_animations sl) audio_shape)))
         = audio_effect audio_shape"
  by (simp add: restore_round_trip)

theorem restore_round_trip_effects_witness:
  "\<not> has_unsafe (snapshot_slide_animations (hd demo_deck)) \<and> length (timeline (hd demo_deck)) = 1
   \<and> fst (restore_slide_animations False (hd demo_deck) (snapshot_slide_animations (hd demo_deck)) 2)
   \<and> timeline (snd (restore_slide_animations False (hd demo_deck) (snapshot_slide_animations (hd demo_deck)) 2))
       = [fade, audio_effect 2]
   \<and> last (timeline (snd (restore_slide_animations False (hd demo_deck) (snapshot_slide_animations (hd demo_deck)) 2)))
       = audio_effect 2"
proof -
  have h: "\<not> has_unsafe (snapshot_slide_animations (hd demo_deck)) \<and> length (timeline (hd demo_deck)) = 1
     \<and> timeline (snd (restore_slide_animations False (hd demo_deck) (snapshot_slide_animations (hd demo_deck)) 2))
       = [fade, audio_effect 2]"
    by code_simp
  from h restore_round_trip_effects [of "hd demo_deck" 1 2]
  show ?thesis by simp
qed

subsection \<open>C10: a slide whose backup failed\<close>

text \<open>
  Claim C10. When the cleanup or the snapshot of a slide raises, \<open>None\<close> is stored for the
  slide. With \<open>None\<close> stored, the check for unsafe categories is not made: after the
  transcoding the worker goes on to the attach sequence and counts the slide. That sequence,
  when its host calls succeed, clears the timeline, inserts the audio shape and makes the basic
  setup: the timeline ends up with the effect of the audio shape alone, no restore is called,
  and the document is saved.
\<close>

theorem backup_failure_fallback:
  "(so_cleanup_raises (slide_env env idx) \<or> so_snapshot_raises (slide_env env idx) \<longrightarrow>
      snapshot_for (fst (backup_slide env idx (snaps0, st0))) idx = None)
   \<and> (snapshot_for snaps idx = None \<and> \<not> audio_only env
      \<and> \<not> so_tmp_write_raises (slide_env env idx) \<longrightarrow>
      after_synthesis env snaps idx nt a c b st
        = (Next, count_processed (attach_slide (slide_env env idx) None idx
             (emit [OpFfmpeg idx (so_ffmpeg_exit (slide_env env idx)), Log LogConverted idx]
                (record_manifest env idx nt a c b st)))))
   \<and> (slide_at (live st) idx = Some sl \<and> \<not> so_delete_vox_raises so \<and> so_clear_stops so = None
      \<and> \<not> so_insert_raises so \<and> \<not> so_basic_setup_raises so \<and> \<not> so_save_raises so \<longrightarrow>
      slide_at (live (attach_slide so None idx st)) idx
        = Some \<lparr>com_shapes = com_shapes (delete_existing_vox_audio sl)
                   @ [\<lparr>com_id = fresh_shape_id (com_shapes (delete_existing_vox_audio sl)),
                       vox_audio = True\<rparr>],
                 timeline = [audio_effect (fresh_shape_id (com_shapes (delete_existing_vox_audio sl)))]\<rparr>
      \<and> trace (attach_slide so None idx st) = trace st @
           [Log LogInserting idx, Op DeleteVoxAudio idx, Op ClearTimeline idx, Op InsertAudio idx,
            Op BasicSetup idx, Log LogSnapshotUnavailable idx, OpSave, Log LogSlideComplete idx]
      \<and> saved (attach_slide so None idx st) = live (attach_slide so None idx st))"
  using backup_failure_none [of env idx snaps0 st0]
    after_synthesis_no_snapshot [of snaps idx env nt a c b st]
    attach_basic [of st idx sl so]
  by blast

theorem backup_failure_fallback_witness:
  "so_cleanup_raises (slide_env (demo_env\<lparr>slide_env := \<lambda>_. ok_oracle\<lparr>so_cleanup_raises := True\<rparr>\<rparr>) 1)
   \<and> snapshot_for
        (fst (backup_slide (demo_env\<lparr>slide_env := \<lambda>_. ok_oracle\<lparr>so_cleanup_raises := True\<rparr>\<rparr>) 1
                ([], demo_state))) 1 = None
   \<and> snapshot_for [(1, None)] 1 = None
   \<and> fst (after_synthesis (demo_env\<lparr>slide_env := \<lambda>_. ok_oracle\<lparr>so_cleanup_raises := True\<rparr>\<rparr>)
            [(1, None)] 1 ''Hello'' 1 200 ''RIFF'' demo_state) = Next
   \<and> slide_at (live demo_state) 1 = Some (hd demo_deck)
   \<and> map timeline (live (attach_slide (ok_oracle\<lparr>so_cleanup_raises := True\<rparr>) None 1 demo_state))
       = [[audio_effect 2], []]
   \<and> trace (attach_slide (ok_oracle\<lparr>so_cleanup_raises := True\<rparr>) None 1 demo_state)
       = [Log LogInserting 1, Op DeleteVoxAudio 1, Op ClearTimeline 1, Op InsertAudio 1,
          Op BasicSetup 1, Log LogSnapshotUnavailable 1, OpSave, Log LogSlideComplete 1]
   \<and> saved (attach_slide (ok_oracle\<lparr>so_cleanup_raises := True\<rparr>) None 1 demo_state)
       = live (attach_slide (ok_oracle\<lparr>so_cleanup_raises := True\<rparr>) None 1 demo_state)"
proof -
  let ?so = "ok_oracle\<lparr>so_cleanup_raises := True\<rparr>"
  let ?env = "demo_env\<lparr>slide_env := \<lambda>_. ?so\<rparr>"
  have h: "so_cleanup_raises (slide_env ?env 1)
     \<and> snapshot_for [(1, None)] 1 = None \<and> \<not> audio_only ?env
     \<and> \<not> so_tmp_write_raises (slide_env ?env 1)
     \<and> slide_at (live demo_state) 1 = Some (hd demo_deck)
     \<and> \<not> so_delete_vox_raises ?so \<and> so_clear_stops ?so = None
     \<and> \<not> so_insert_raises ?so \<and> \<not> so_basic_setup_raises ?so \<and> \<not> so_save_raises ?so
     \<and> trace demo_state = []
     \<and> map timeline (live (attach_slide ?so None 1 demo_state)) = [[audio_effect 2], []]"
    by code_simp
  from h
    backup_failure_fallback [of ?env 1 "[]" demo_state "[(1, None)]" "''Hello''" 1 200 "''RIFF''"
      demo_state "hd demo_deck" ?so]
  show ?thesis by simp
qed

end
